theory Spec2Isabelle
  imports Complex_Main
begin

section \<open>DegNorm: the NMF over-approximation engine of \<open>degnorm/nmf.py\<close>\<close>

text \<open>
  A shallow embedding of class \<open>GeneNMFOA\<close>. numpy arrays of floats are lists of
  reals: a vector is a list, a matrix the list of its rows. IEEE values that are not
  reals (\<open>nan\<close>, \<open>inf\<close>) have no counterpart here; where the source tests for them
  the text says so. Every \<open>raise\<close> of the source, and every numpy failure the source
  can meet (a reduction over an empty array, an index out of range), is a value
  \<open>Inl e\<close> of a sum type.
\<close>

subsection \<open>Data\<close>

type_synonym vec = "real list"
type_synonym matrix = "real list list"

datatype error =
    GeneCountMismatch      \<comment> \<open>fit: 'Number of genes in read count matrix not equal ...'\<close>
  | NotAll2d               \<comment> \<open>fit: 'Not all coverage matrices are 2-d arrays!'\<close>
  | DownsampleRateTooLarge \<comment> \<open>fit: 'downsample_rate is too large; ...'\<close>
  | CannotDownsample       \<comment> \<open>downsample_2d: 'Cannot downsample at a rate < 1 / length(gene)'\<close>
  | NotFitted              \<comment> \<open>transform: 'self.fit not yet executed.'\<close>
  | EmptyReduction         \<comment> \<open>numpy: min, max, argmax or vstack of no element\<close>
  | IndexError             \<comment> \<open>an index out of range\<close>
  | StopIteration          \<comment> \<open>\<open>next\<close> on an exhausted iterator\<close>
  | SvdError               \<comment> \<open>\<open>scipy.sparse.linalg.svds\<close> refused its argument\<close>
  | EmptyChoice            \<comment> \<open>\<open>np.random.choice(0)\<close>\<close>
  | VstackMismatch         \<comment> \<open>\<open>np.vstack\<close> of rows of different lengths\<close>
  | NoWorkers              \<comment> \<open>\<open>joblib.Parallel\<close> with \<open>n_jobs = 0\<close>\<close>

definition nrows :: "'a list list \<Rightarrow> nat" where
  "nrows m = length m"

definition ncols :: "'a list list \<Rightarrow> nat" where
  "ncols m = (case m of [] \<Rightarrow> 0 | r # _ \<Rightarrow> length r)"

text \<open>A numpy 2-d array is rectangular; a list of rows stands for one when it is too.\<close>

definition is_matrix :: "'a list list \<Rightarrow> bool" where
  "is_matrix m = list_all (\<lambda>r. length r = ncols m) m"

subsection \<open>Errors as values\<close>

text \<open>Sequencing of two steps that may raise: the first error wins.\<close>

definition bindE :: "error + 'a \<Rightarrow> ('a \<Rightarrow> error + 'b) \<Rightarrow> error + 'b" where
  "bindE m f = (case m of Inl e \<Rightarrow> Inl e | Inr v \<Rightarrow> f v)"

text \<open>\<open>list(map(f, xs))\<close> for an \<open>f\<close> that may raise: elements are processed in order.\<close>

fun mapE :: "('a \<Rightarrow> error + 'b) \<Rightarrow> 'a list \<Rightarrow> error + 'b list" where
  "mapE f [] = Inr []"
| "mapE f (x # xs) = bindE (f x) (\<lambda>y. bindE (mapE f xs) (\<lambda>ys. Inr (y # ys)))"

subsection \<open>Bins: \<open>shift_bins\<close>\<close>

text \<open>
  A bin is a Python list of ints. \<open>bins[k][0]\<close> and \<open>bins[k][-1]\<close> raise IndexError
  on an empty bin and on a \<open>k\<close> past the end. \<open>dropped_bin\<close> is the position
  \<open>np.nanargmax\<close> returned, a natural number.
\<close>

definition first_of :: "int list \<Rightarrow> error + int" where
  "first_of b = (case b of [] \<Rightarrow> Inl IndexError | v # _ \<Rightarrow> Inr v)"

definition last_of :: "int list \<Rightarrow> error + int" where
  "last_of b = (if b = [] then Inl IndexError else Inr (last b))"

definition bin_at :: "int list list \<Rightarrow> nat \<Rightarrow> error + int list" where
  "bin_at bs k = (if k < length bs then Inr (bs ! k) else Inl IndexError)"

text \<open>The loop \<open>for bin_idx in range(dropped_bin, len(bins))\<close>.\<close>

definition shift_from :: "int list list \<Rightarrow> nat \<Rightarrow> int \<Rightarrow> int list list" where
  "shift_from bs dropped_bin delta =
     take dropped_bin bs @ map (map (\<lambda>idx. idx - delta)) (drop dropped_bin bs)"

definition shift_bins :: "int list list \<Rightarrow> nat \<Rightarrow> error + int list list" where
  "shift_bins bs dropped_bin =
     (if dropped_bin = length bs \<or> length bs = 1 then Inr bs
      else if dropped_bin = 0 then
        bindE (bin_at bs 0) (\<lambda>b0.
        bindE (first_of b0) (\<lambda>delta.
          Inr (shift_from bs dropped_bin delta)))
      else
        bindE (bin_at bs dropped_bin) (\<lambda>b.
        bindE (first_of b) (\<lambda>lo.
        bindE (bin_at bs (dropped_bin - 1)) (\<lambda>pb.
        bindE (last_of pb) (\<lambda>hi.
          Inr (shift_from bs dropped_bin (lo - hi - 1)))))))"

text \<open>\<open>del bin_segs[drop_idx]\<close>: the deletion \<open>baseline_selection\<close> performs before
  it calls \<open>shift_bins\<close>.\<close>

definition del_at :: "'a list \<Rightarrow> nat \<Rightarrow> error + 'a list" where
  "del_at xs k = (if k < length xs then Inr (take k xs @ drop (Suc k) xs) else Inl IndexError)"

definition drop_and_shift :: "int list list \<Rightarrow> nat \<Rightarrow> error + int list list" where
  "drop_and_shift bs drop_idx = bindE (del_at bs drop_idx) (\<lambda>bs'. shift_bins bs' drop_idx)"

subsection \<open>Helpers of \<open>degnorm/utils.py\<close>\<close>

text \<open>
  Modelled from the spec: \<open>split_into_chunks\<close> of \<open>degnorm/utils.py\<close>, which is not
  among the sources. The spec describes its result as an ordered partition of the list
  into a fixed number of contiguous runs of near-equal size: here runs of
  \<open>ceil(len / n)\<close> consecutive elements, the last one possibly shorter. The spec says
  nothing about \<open>n = 0\<close>; the model returns no chunk there.
\<close>

function chunks_of :: "nat \<Rightarrow> 'a list \<Rightarrow> 'a list list" where
  "chunks_of k xs = (if k = 0 \<or> xs = [] then [] else take k xs # chunks_of k (drop k xs))"
  by pat_completeness auto
termination
  by (relation "measure (\<lambda>(k, xs). length xs)") auto

declare chunks_of.simps [simp del]

definition split_into_chunks :: "'a list \<Rightarrow> nat \<Rightarrow> 'a list list" where
  "split_into_chunks xs n = chunks_of ((length xs + n - 1) div n) xs"

text \<open>
  Modelled from the spec: \<open>flatten_2d\<close> of \<open>degnorm/utils.py\<close>, which is not among the
  sources: the union of the remaining bins, as one list in order.
\<close>

definition flatten_2d :: "'a list list \<Rightarrow> 'a list" where
  "flatten_2d xss = concat xss"

subsection \<open>Shared state and \<open>joblib.Parallel\<close>\<close>

text \<open>
  A function that reads and advances state shared by the whole process (the random
  generator of numpy) takes the state and returns it with its result. \<open>mapS f\<close> is
  \<open>list(map(f, xs))\<close> for such an \<open>f\<close>: the calls are made in the order of the list, each
  on the state the one before it left, and the first exception ends the run.
\<close>

fun mapS :: "('a \<Rightarrow> 'g \<Rightarrow> (error + 'b) \<times> 'g) \<Rightarrow> 'a list \<Rightarrow> 'g \<Rightarrow> (error + 'b list) \<times> 'g" where
  "mapS f [] g = (Inr [], g)"
| "mapS f (x # xs) g =
     (case f x g of
        (Inl e, g1) \<Rightarrow> (Inl e, g1)
      | (Inr y, g1) \<Rightarrow>
          (case mapS f xs g1 of
             (Inl e, g2) \<Rightarrow> (Inl e, g2)
           | (Inr ys, g2) \<Rightarrow> (Inr (y # ys), g2)))"

text \<open>
  \<open>Parallel(n_jobs=n, backend='threading')(map(delayed(task), dat))\<close>, where \<open>task\<close>
  applies \<open>f\<close> to the items of one chunk of \<open>dat\<close>, one after the other
  (\<open>run_nmf_serial\<close>, \<open>run_baseline_selection_serial\<close>). joblib is a library, not a part
  of the repository; what is used of it here: \<open>n_jobs = 0\<close> is refused; with one worker
  the tasks run one after the other in the caller's thread, in the order of the list;
  with more workers the tasks run in threads of one process, and their accesses to the
  shared state are interleaved as the scheduler decides; the results come back in the
  order of the tasks; an exception in a task is the call's exception.

  A call of \<open>f\<close> touches the shared state at one point at most (\<open>baseline_selection\<close>
  asks the generator once, \<open>nmf\<close> never), so an interleaving of the threads is a
  sequence of whole calls. The pool is the shared state, the items each chunk has yet
  to process, and the results each chunk has so far. \<open>sched\<close> names, step by step, the
  chunk whose thread makes its next call; a step that names no chunk or a finished one
  is idle; what \<open>sched\<close> leaves undone is done in the order of the chunks. Every run of
  the thread pool is the run of some \<open>sched\<close>. (Not every \<open>sched\<close> is a run of a pool of
  \<open>n\<close> workers: the pool starts the chunks in order, \<open>n\<close> at a time.) The first exception
  in the order of the calls is the one reported, with the shared state as that call
  left it.
\<close>

type_synonym ('a, 'b, 'g) pool = "'g \<times> 'a list list \<times> 'b list list"

definition pool_step ::
  "('a \<Rightarrow> 'g \<Rightarrow> (error + 'b) \<times> 'g) \<Rightarrow> nat \<Rightarrow> ('a, 'b, 'g) pool \<Rightarrow>
   error \<times> 'g + ('a, 'b, 'g) pool" where
  "pool_step f c st =
     (case st of (g, pend, out) \<Rightarrow>
        if c < length pend then
          (case pend ! c of
             [] \<Rightarrow> Inr st
           | x # xs \<Rightarrow>
               (case f x g of
                  (Inl e, g1) \<Rightarrow> Inl (e, g1)
                | (Inr y, g1) \<Rightarrow> Inr (g1, pend[c := xs], out[c := out ! c @ [y]])))
        else Inr st)"

fun pool_run ::
  "('a \<Rightarrow> 'g \<Rightarrow> (error + 'b) \<times> 'g) \<Rightarrow> nat list \<Rightarrow> ('a, 'b, 'g) pool \<Rightarrow>
   error \<times> 'g + ('a, 'b, 'g) pool" where
  "pool_run f [] st = Inr st"
| "pool_run f (c # cs) st =
     (case pool_step f c st of
        Inl eg \<Rightarrow> Inl eg
      | Inr st1 \<Rightarrow> pool_run f cs st1)"

definition Parallel ::
  "nat \<Rightarrow> nat list \<Rightarrow> ('a \<Rightarrow> 'g \<Rightarrow> (error + 'b) \<times> 'g) \<Rightarrow> 'a list list \<Rightarrow> 'g \<Rightarrow>
   (error + 'b list list) \<times> 'g" where
  "Parallel n sched f dat g =
     (if n = 0 then (Inl NoWorkers, g)
      else if n = 1 then mapS (mapS f) dat g
      else
        case pool_run f sched (g, dat, map (\<lambda>_. []) dat) of
          Inl (e, g1) \<Rightarrow> (Inl e, g1)
        | Inr (g1, pend, out) \<Rightarrow>
            (case mapS (mapS f) pend g1 of
               (Inl e, g2) \<Rightarrow> (Inl e, g2)
             | (Inr rest, g2) \<Rightarrow> (Inr (map2 (@) out rest), g2)))"

subsection \<open>numpy operations\<close>

definition row_sums :: "matrix \<Rightarrow> vec" where
  "row_sums m = map sum_list m"

text \<open>\<open>K.dot(E)\<close> for a column \<open>K\<close> and a row \<open>E\<close>.\<close>

definition outer :: "vec \<Rightarrow> vec \<Rightarrow> matrix" where
  "outer K E = map (\<lambda>k. map (\<lambda>e. k * e) E) K"

definition mat_map2 :: "(real \<Rightarrow> real \<Rightarrow> real) \<Rightarrow> matrix \<Rightarrow> matrix \<Rightarrow> matrix" where
  "mat_map2 f A B = map2 (map2 f) A B"

definition mat_abs :: "matrix \<Rightarrow> matrix" where
  "mat_abs m = map (map abs) m"

text \<open>\<open>est[est < x] = x[est < x]\<close>.\<close>

definition over_approx :: "matrix \<Rightarrow> matrix \<Rightarrow> matrix" where
  "over_approx est x = mat_map2 (\<lambda>e v. if e < v then v else e) est x"

text \<open>Maximum and minimum of a list; the callers below raise before they reach an
  empty one.\<close>

fun maxl :: "real list \<Rightarrow> real" where
  "maxl [] = 0"
| "maxl (v # vs) = fold max vs v"

fun minl :: "real list \<Rightarrow> real" where
  "minl [] = 0"
| "minl (v # vs) = fold min vs v"

definition np_max :: "real list \<Rightarrow> error + real" where
  "np_max vs = (if vs = [] then Inl EmptyReduction else Inr (maxl vs))"

text \<open>\<open>np.nanargmax\<close>: the first position of the maximum.\<close>

definition nanargmax :: "real list \<Rightarrow> error + nat" where
  "nanargmax vs =
     (if vs = [] then Inl EmptyReduction
      else Inr (length (takeWhile (\<lambda>v. v \<noteq> maxl vs) vs)))"

text \<open>\<open>np.linalg.norm\<close> of a 2-d array: the Frobenius norm.\<close>

definition fro_norm :: "matrix \<Rightarrow> real" where
  "fro_norm m = sqrt (sum_list (map (\<lambda>v. v * v) (concat m)))"

text \<open>\<open>m[:, idx]\<close> for a list of ints: a negative index counts from the end, an index
  out of range raises IndexError.\<close>

definition col_index :: "nat \<Rightarrow> int \<Rightarrow> error + nat" where
  "col_index n j =
     (if 0 \<le> j \<and> j < int n then Inr (nat j)
      else if - int n \<le> j \<and> j < 0 then Inr (nat (int n + j))
      else Inl IndexError)"

definition select_cols :: "matrix \<Rightarrow> int list \<Rightarrow> error + matrix" where
  "select_cols m idx =
     bindE (mapE (col_index (ncols m)) idx) (\<lambda>js. Inr (map (\<lambda>r. map (\<lambda>j. r ! j) js) m))"

text \<open>\<open>np.unique\<close> and \<open>np.intersect1d\<close>: sorted, without repetition.\<close>

definition np_unique :: "int list \<Rightarrow> int list" where
  "np_unique xs = sort (remdups xs)"

definition intersect1d :: "nat list \<Rightarrow> nat list \<Rightarrow> nat list" where
  "intersect1d xs ys = sort (remdups (filter (\<lambda>v. v \<in> set ys) xs))"

subsection \<open>The object\<close>

text \<open>
  The fields of \<open>GeneNMFOA\<close>. A field that \<open>__init__\<close> sets to \<open>None\<close> holds an empty
  list or 0 until \<open>fit\<close> assigns it. The fields \<open>x\<close> and \<open>p\<close> are \<open>x_counts\<close> and
  \<open>p_samples\<close> here, and the remaining names carry no suffix.
\<close>

datatype ndarray =
    A0 real
  | A1 "real list"
  | A2 "real list list"
  | A3 "real list list list"

record nmfoa =
  degnorm_iter :: nat
  nmf_iter :: nat
  n_jobs :: nat
  bins :: nat
  min_high_coverage :: nat
  min_bins :: nat
  use_baseline_selection :: "bool list"
  downsample_rate :: nat
  mem_splits :: nat
  x_counts :: matrix
  x_adj :: matrix
  p_samples :: nat
  n_genes :: nat
  genes :: "string list"
  scale_factors :: vec
  rho :: matrix
  Lis :: "nat list"
  cov_sums :: matrix
  estimates :: "matrix list"
  cov_mats :: "ndarray list"
  cov_mats_adj :: "matrix list"
  fitted :: bool
  transformed :: bool

text \<open>\<open>__init__\<close>: every count is \<open>np.abs(int(.))\<close> of its argument; \<open>n_jobs\<close> defaults
  to \<open>max_cpu()\<close>, a number of the machine, and is an argument here.\<close>

definition init :: "int \<Rightarrow> int \<Rightarrow> int \<Rightarrow> int \<Rightarrow> int \<Rightarrow> int \<Rightarrow> nmfoa" where
  "init degnorm_iter0 downsample_rate0 min_high_coverage0 nmf_iter0 bins0 n_jobs0 =
     \<lparr> degnorm_iter = nat \<bar>degnorm_iter0\<bar>,
       nmf_iter = nat \<bar>nmf_iter0\<bar>,
       n_jobs = nat \<bar>n_jobs0\<bar>,
       bins = nat \<bar>bins0\<bar>,
       min_high_coverage = nat \<bar>min_high_coverage0\<bar>,
       min_bins = nat \<lceil>real (nat \<bar>bins0\<bar>) * (3 / 10)\<rceil>,
       use_baseline_selection = [],
       downsample_rate = nat \<bar>downsample_rate0\<bar>,
       mem_splits = 0,
       x_counts = [],
       x_adj = [],
       p_samples = 0,
       n_genes = 0,
       genes = [],
       scale_factors = [],
       rho = [],
       Lis = [],
       cov_sums = [],
       estimates = [],
       cov_mats = [],
       cov_mats_adj = [],
       fitted = False,
       transformed = False \<rparr>"

subsection \<open>\<open>rank_one_approx\<close> and \<open>nmf\<close>\<close>

text \<open>
  \<open>scipy.sparse.linalg.svds(x, k=1)\<close> is a library routine: it is a parameter \<open>svd\<close> of
  the model, returning \<open>(u, s, v)\<close> (a column, the singular value, a row) or refusing
  its argument. Its contract on shapes is \<open>svds_shapes\<close>.
\<close>

type_synonym svds = "matrix \<Rightarrow> error + (vec \<times> real \<times> vec)"

definition svds_shapes :: "svds \<Rightarrow> bool" where
  "svds_shapes svd =
     (\<forall>m u s v. svd m = Inr (u, s, v) \<longrightarrow> length u = nrows m \<and> length v = ncols m)"

definition rank_one_approx :: "svds \<Rightarrow> matrix \<Rightarrow> error + (vec \<times> vec)" where
  "rank_one_approx svd m =
     bindE (svd m) (\<lambda>(u, s, v). Inr (map (\<lambda>ui. ui * s) u, v))"

text \<open>One pass of the body of \<open>for _ in range(self.nmf_iter)\<close>; the state is
  \<open>(K, E, est, lmbda)\<close>.\<close>

definition nmf_step ::
  "svds \<Rightarrow> matrix \<Rightarrow> real \<Rightarrow> vec \<times> vec \<times> matrix \<times> matrix \<Rightarrow>
   error + (vec \<times> vec \<times> matrix \<times> matrix)" where
  "nmf_step svd m c st =
     (case st of (K, E, est, lmbda) \<Rightarrow>
        let res = mat_map2 (\<lambda>a b. a - b) est m;
            lmbda1 = mat_map2 (\<lambda>l r. l - r * (1 / c)) lmbda res;
            lmbda2 = map (map (\<lambda>l. if l < 0 then 0 else l)) lmbda1
        in bindE (rank_one_approx svd (mat_map2 (\<lambda>a b. a + b) est lmbda2))
             (\<lambda>(K', E'). Inr (K', E', outer K' E', lmbda2)))"

primrec nmf_iterate ::
  "svds \<Rightarrow> matrix \<Rightarrow> real \<Rightarrow> nat \<Rightarrow> vec \<times> vec \<times> matrix \<times> matrix \<Rightarrow>
   error + (vec \<times> vec \<times> matrix \<times> matrix)" where
  "nmf_iterate svd m c 0 st = Inr st"
| "nmf_iterate svd m c (Suc n) st = bindE (nmf_step svd m c st) (nmf_iterate svd m c n)"

text \<open>Lines 82 to 92 of \<open>nmf\<close>, shared by both values of \<open>factors\<close>.\<close>

definition nmf_fit :: "nmfoa \<Rightarrow> svds \<Rightarrow> matrix \<Rightarrow> error + (vec \<times> vec \<times> matrix \<times> matrix)" where
  "nmf_fit self svd m =
     bindE (rank_one_approx svd m) (\<lambda>(K, E).
       nmf_iterate svd m (sqrt (real (nmf_iter self))) (nmf_iter self)
         (K, E, outer K E, map (map (\<lambda>_. 0)) m))"

text \<open>\<open>nmf(x, factors=True)\<close> and \<open>nmf(x)\<close>: two functions, since the result types
  differ.\<close>

definition nmf_factors :: "nmfoa \<Rightarrow> svds \<Rightarrow> matrix \<Rightarrow> error + (vec \<times> vec)" where
  "nmf_factors self svd m =
     bindE (nmf_fit self svd m) (\<lambda>(K, E, est, lmbda). Inr (map abs K, map abs E))"

definition nmf :: "nmfoa \<Rightarrow> svds \<Rightarrow> matrix \<Rightarrow> error + matrix" where
  "nmf self svd m =
     bindE (nmf_fit self svd m) (\<lambda>(K, E, est, lmbda). Inr (over_approx est m))"


text \<open>\<open>par_apply_nmf\<close>: \<open>nmf\<close> has no shared state, so the pool's shared state is
  \<open>()\<close>; \<open>sched\<close> is the scheduling of this call's threads.\<close>

definition par_apply_nmf :: "nmfoa \<Rightarrow> svds \<Rightarrow> nat list \<Rightarrow> matrix list \<Rightarrow> error + matrix list" where
  "par_apply_nmf self svd sched dat =
     bindE (fst (Parallel (n_jobs self) sched (\<lambda>z (u :: unit). (nmf self svd z, u))
                  (split_into_chunks dat (mem_splits self)) ()))
       (\<lambda>nmf_ests. Inr (concat nmf_ests))"

subsection \<open>High coverage and downsampling\<close>

text \<open>\<open>np.where(x.max(axis=0) > 0.1 * x.max())[0]\<close>; both maxima raise on an array
  with no element.\<close>

definition get_high_coverage_idx :: "matrix \<Rightarrow> error + nat list" where
  "get_high_coverage_idx m =
     (if m = [] \<or> ncols m = 0 then Inl EmptyReduction
      else Inr (filter (\<lambda>j. maxl (map (\<lambda>r. r ! j) m) > 0.1 * maxl (concat m))
                  [0 ..< ncols m]))"

text \<open>
  \<open>_systematic_sample\<close>: \<open>start\<close> is the value \<open>np.random.choice\<close> returns; the
  call raises when it is asked to choose among no values. The branch
  \<open>take_every >= n\<close>, which returns one random position as a scalar, is not reached
  from \<open>downsample_2d\<close> (it raises first); here it is the one-element list of the draw.
\<close>

definition arange :: "nat \<Rightarrow> nat \<Rightarrow> nat \<Rightarrow> nat list" where
  "arange start n step =
     (if step = 0 \<or> n \<le> start then []
      else map (\<lambda>i. start + i * step) [0 ..< (n - start + step - 1) div step])"

definition systematic_sample :: "nat \<Rightarrow> nat \<Rightarrow> nat \<Rightarrow> error + nat list" where
  "systematic_sample n take_every start =
     (if take_every \<ge> n then (if n = 0 then Inl EmptyChoice else Inr [start])
      else if take_every = 0 then Inl EmptyChoice
      else Inr (arange start n take_every))"

definition downsample_2d ::
  "nmfoa \<Rightarrow> nat \<Rightarrow> matrix \<Rightarrow> bool \<Rightarrow> error + (matrix \<times> nat list)" where
  "downsample_2d self start m by_row =
     (let Li = (if by_row then nrows m else ncols m) in
      if downsample_rate self = 1 then Inr (m, [0 ..< Li])
      else if downsample_rate self \<ge> Li then Inl CannotDownsample
      else
        bindE (systematic_sample Li (downsample_rate self) start) (\<lambda>downsample_idx.
        if by_row then Inr (map (\<lambda>i. m ! i) downsample_idx, downsample_idx)
        else Inr (map (\<lambda>r. map (\<lambda>j. r ! j) downsample_idx) m, downsample_idx)))"

subsection \<open>Degradation index scores\<close>

text \<open>
  The literal \<open>1e-5\<close> is \<open>eps\<close>.
  \<open>rho[rho < 0] = 0.\<close> and then \<open>rho[rho >= 1] = 1. - 1e-5\<close>, applied to
  \<open>1 - observed / (estimate + 1)\<close>. (A denominator 0 gives an IEEE infinity or nan in
  numpy; no coverage estimate of the program sums to -1.)
\<close>

definition eps :: real where
  "eps = 1 / 100000"

definition clip_rho :: "real \<Rightarrow> real" where
  "clip_rho r = (let r1 = (if r < 0 then 0 else r) in if r1 \<ge> 1 then 1 - eps else r1)"

definition di_scores :: "vec \<Rightarrow> vec \<Rightarrow> vec" where
  "di_scores obs ests = map2 (\<lambda>f k. clip_rho (1 - f / (k + 1))) obs ests"

subsection \<open>\<open>baseline_selection\<close>\<close>

record bs_state =
  n_bins :: nat
  bin_segs :: "int list list"
  F_bin :: matrix
  KE_bin :: matrix
  rho_vec :: vec

text \<open>The body of the \<open>while\<close> loop, lines 275 to 314.\<close>

definition bs_body :: "nmfoa \<Rightarrow> svds \<Rightarrow> bs_state \<Rightarrow> error + bs_state" where
  "bs_body self svd st =
     (let nb = length (bin_segs st);
          resid = mat_map2 (\<lambda>a b. a - b) (KE_bin st) (F_bin st) in
      bindE (mapE (\<lambda>seg.
               bindE (select_cols resid seg) (\<lambda>r.
               bindE (select_cols (F_bin st) seg) (\<lambda>f.
                 Inr (fro_norm r, fro_norm f))))
             (bin_segs st)) (\<lambda>ss.
      let res_norms = map (\<lambda>(ss_r, ss_f). if ss_f = 0 then 0 else ss_r / ss_f) ss in
      bindE (nanargmax res_norms) (\<lambda>drop_idx.
      bindE (del_at (bin_segs st) drop_idx) (\<lambda>segs1.
      let keep_idx = np_unique (flatten_2d segs1) in
      bindE (shift_bins segs1 drop_idx) (\<lambda>segs2.
      bindE (select_cols (F_bin st) keep_idx) (\<lambda>F'.
      bindE (nmf self svd F') (\<lambda>KE'.
        Inr \<lparr> n_bins = nb, bin_segs = segs2, F_bin = F', KE_bin = KE',
              rho_vec = di_scores (row_sums F') (row_sums KE') \<rparr>)))))))"

lemma shift_bins_length: "shift_bins bs k = Inr bs' \<Longrightarrow> length bs' = length bs"
  by (auto simp: shift_bins_def shift_from_def bindE_def split: if_splits sum.splits)

lemma del_at_length: "del_at xs k = Inr ys \<Longrightarrow> Suc (length ys) = length xs"
  by (auto simp: del_at_def split: if_splits)

lemma bs_body_shrinks:
  "bs_body self svd st = Inr st' \<Longrightarrow> Suc (length (bin_segs st')) = length (bin_segs st)"
  by (auto simp: bs_body_def bindE_def Let_def split: sum.splits
           dest!: shift_bins_length del_at_length)

text \<open>\<open>while (n_bins > self.min_bins) and (np.nanmax(rho_vec) > 0.1)\<close>: every pass
  deletes a bin, so the loop ends.\<close>

function bs_loop :: "nmfoa \<Rightarrow> svds \<Rightarrow> bs_state \<Rightarrow> error + bs_state" where
  "bs_loop self svd st =
     (if n_bins st > min_bins self then
        (case np_max (rho_vec st) of
           Inl e \<Rightarrow> Inl e
         | Inr mx \<Rightarrow>
             if mx > 0.1 then
               (case bs_body self svd st of
                  Inl e \<Rightarrow> Inl e
                | Inr st' \<Rightarrow> bs_loop self svd st')
             else Inr st)
      else Inr st)"
  by pat_completeness auto
termination
proof (relation "measure (\<lambda>(self, svd, st). length (bin_segs st))")
  show "wf (measure (\<lambda>(self, svd, st). length (bin_segs st)))"
    by simp
next
  fix self :: nmfoa and svd :: svds and st st' :: bs_state and mx :: real
  assume "bs_body self svd st = Inr st'"
  then have "Suc (length (bin_segs st')) = length (bin_segs st)"
    by (rule bs_body_shrinks)
  then show "((self, svd, st'), (self, svd, st)) \<in> measure (\<lambda>(self, svd, st). length (bin_segs st))"
    by simp
qed

declare bs_loop.simps [simp del]

text \<open>\<open>K[K < 1.e-5] = np.min(K[K >= 1.e-5])\<close>: the minimum is taken first, and raises
  when no entry reaches \<open>1e-5\<close>.\<close>

definition floor_K :: "vec \<Rightarrow> error + vec" where
  "floor_K K =
     (let big = filter (\<lambda>k. k \<ge> eps) K in
      if big = [] then Inl EmptyReduction
      else Inr (map (\<lambda>k. if k < eps then minl big else k) K))"

text \<open>\<open>np.true_divide(F.T, K.ravel()).max(axis=1)\<close>: for each position the maximum
  over the samples of \<open>F[sample, position] / K[sample]\<close>.\<close>

definition refine_E :: "matrix \<Rightarrow> vec \<Rightarrow> vec" where
  "refine_E F K = map (\<lambda>j. maxl (map2 (\<lambda>r k. (r ! j) / k) F K)) [0 ..< ncols F]"

text \<open>
  Lines 245 to 336, after the early exits; \<open>bs_init\<close> is the state at the head of
  the loop (lines 253 to 264). The test \<open>np.any(np.isnan(E))\<close> has no counterpart over the
  reals and never raises here.
\<close>

definition bs_init :: "nmfoa \<Rightarrow> matrix \<Rightarrow> vec \<Rightarrow> vec \<Rightarrow> bs_state" where
  "bs_init self F_start K E =
     (let KE0 = mat_abs (outer K E);
          segs = split_into_chunks (map int [0 ..< ncols F_start]) (bins self)
      in \<lparr> n_bins = length segs, bin_segs = segs, F_bin = F_start, KE_bin = KE0,
            rho_vec = di_scores (row_sums F_start) (row_sums KE0) \<rparr>)"

definition baseline_run :: "nmfoa \<Rightarrow> svds \<Rightarrow> matrix \<Rightarrow> nat list \<Rightarrow> error + (matrix \<times> bool)" where
  "baseline_run self svd F hi_cov_idx =
     (let F_start = map (\<lambda>r. map (\<lambda>j. r ! j) (sort hi_cov_idx)) F in
      bindE (nmf_factors self svd F_start) (\<lambda>(K, E).
      bindE (bs_loop self svd (bs_init self F_start K E)) (\<lambda>st.
      bindE (np_max (rho_vec st)) (\<lambda>mx.
      bindE (if mx < 0.1 then nmf_factors self svd (F_bin st) else Inr (K, E)) (\<lambda>(K1, E1).
      bindE (floor_K K1) (\<lambda>K2.
      let E2 = refine_E F K2 in
        Inr (over_approx (mat_abs (outer K2 E2)) F, True)))))))"

text \<open>\<open>start\<close> is the value \<open>np.random.choice\<close> returns in this call, if it is asked.\<close>

definition baseline_selection ::
  "nmfoa \<Rightarrow> svds \<Rightarrow> nat \<Rightarrow> matrix \<Rightarrow> error + (matrix \<times> bool)" where
  "baseline_selection self svd start F =
     bindE (if downsample_rate self > 1
            then bindE (downsample_2d self start F False) (\<lambda>(_, idx). Inr (False, idx))
            else Inr (True, [])) (\<lambda>(bin_me, downsample_idx).
     bindE (get_high_coverage_idx F) (\<lambda>hi_cov_idx.
       if bin_me then
         (if length hi_cov_idx < min_high_coverage self then Inr (F, False)
          else baseline_run self svd F hi_cov_idx)
       else
         (let hi_cov_idx' = intersect1d downsample_idx hi_cov_idx in
          if length hi_cov_idx' \<le> 1 then Inr (F, False)
          else baseline_run self svd F hi_cov_idx')))"

text \<open>
  The generator \<open>np.random\<close> is shared by every call in the process. Its state is the
  sequence of values it has yet to produce; \<open>np.random.choice(n)\<close>, for \<open>n > 0\<close>,
  returns the next one reduced below \<open>n\<close> and leaves the rest.
\<close>

type_synonym rng = "nat \<Rightarrow> nat"

definition choice :: "nat \<Rightarrow> rng \<Rightarrow> nat \<times> rng" where
  "choice n g = (g 0 mod n, \<lambda>k. g (Suc k))"

text \<open>
  A call \<open>self.baseline_selection(F)\<close> on the generator \<open>g\<close>. The call asks the
  generator once, in \<open>_systematic_sample\<close>, when \<open>downsample_2d\<close> gets that far
  (\<open>downsample_rate > 1\<close> and \<open>downsample_rate < F.shape[1]\<close>), for a value below
  \<open>downsample_rate\<close>; otherwise it leaves the generator alone, and its result does not
  depend on a draw (\<open>downsample_2d_draw\<close> and \<open>baseline_selection_no_draw\<close> below).
\<close>

definition asks_generator :: "nmfoa \<Rightarrow> matrix \<Rightarrow> bool" where
  "asks_generator self F \<longleftrightarrow> 1 < downsample_rate self \<and> downsample_rate self < ncols F"

definition baseline_selection_call ::
  "nmfoa \<Rightarrow> svds \<Rightarrow> matrix \<Rightarrow> rng \<Rightarrow> (error + (matrix \<times> bool)) \<times> rng" where
  "baseline_selection_call self svd F g =
     (if asks_generator self F then
        (case choice (downsample_rate self) g of
           (start, g1) \<Rightarrow> (baseline_selection self svd start F, g1))
      else (baseline_selection self svd 0 F, g))"

definition run_baseline_selection_serial ::
  "nmfoa \<Rightarrow> svds \<Rightarrow> matrix list \<Rightarrow> rng \<Rightarrow> (error + (matrix \<times> bool) list) \<times> rng" where
  "run_baseline_selection_serial self svd x g = mapS (baseline_selection_call self svd) x g"

text \<open>\<open>par_apply_baseline_selection\<close>: the threads of the pool share the generator;
  \<open>sched\<close> is the scheduling of this call's threads. The flags are stored when every
  chunk has returned.\<close>

definition par_apply_baseline_selection ::
  "nmfoa \<Rightarrow> svds \<Rightarrow> nat list \<Rightarrow> matrix list \<Rightarrow> rng \<Rightarrow> (error + (nmfoa \<times> matrix list)) \<times> rng" where
  "par_apply_baseline_selection self svd sched dat g =
     (case Parallel (n_jobs self) sched (baseline_selection_call self svd)
             (split_into_chunks dat (mem_splits self)) g of
        (Inl e, g1) \<Rightarrow> (Inl e, g1)
      | (Inr chunks, g1) \<Rightarrow>
          (let baseline_ests = concat chunks in
           (Inr (self\<lparr>use_baseline_selection := map snd baseline_ests\<rparr>, map fst baseline_ests),
            g1)))"

subsection \<open>Scale factors and adjustments\<close>

definition col_sums :: "matrix \<Rightarrow> vec" where
  "col_sums m = map (\<lambda>j. sum_list (map (\<lambda>r. r ! j) m)) [0 ..< ncols m]"

text \<open>\<open>np.median\<close>; of no element it is nan (0 here).\<close>

definition np_median :: "vec \<Rightarrow> real" where
  "np_median vs =
     (let srt = sort vs; n = length srt in
      if n = 0 then 0
      else if odd n then srt ! (n div 2)
      else (srt ! (n div 2 - 1) + srt ! (n div 2)) / 2)"

text \<open>\<open>np.vstack\<close> of an empty list raises. The matrices \<open>self.cov_sums\<close> and
  \<open>np.vstack(est_sums)\<close> have the same shape in every call the program makes.\<close>

definition compute_scale_factors :: "nmfoa \<Rightarrow> matrix list \<Rightarrow> error + nmfoa" where
  "compute_scale_factors self ests =
     (let est_sums = map row_sums ests in
      if est_sums = [] then Inl EmptyReduction
      else
        let rho1 = map2 di_scores (cov_sums self) est_sums;
            scaled_counts_mat = mat_map2 (\<lambda>c r. c / (1 - r)) (x_counts self) rho1;
            scaled_counts_sums = col_sums scaled_counts_mat
        in Inr (self\<lparr> rho := rho1,
                      scale_factors :=
                        map (\<lambda>v. v / np_median scaled_counts_sums) scaled_counts_sums \<rparr>))"

text \<open>\<open>[(F.T / self.scale_factors).T for F in self.cov_mats]\<close>, on 2-d arrays.\<close>

definition adjust_coverage_curves :: "nmfoa \<Rightarrow> matrix list \<Rightarrow> nmfoa" where
  "adjust_coverage_curves self mats =
     self\<lparr> cov_mats_adj := map (\<lambda>F. map2 (\<lambda>r sf. map (\<lambda>v. v / sf) r) F (scale_factors self)) mats \<rparr>"

text \<open>\<open>self.rho.mean(axis=0)\<close>.\<close>

definition col_means :: "matrix \<Rightarrow> vec" where
  "col_means m = map (\<lambda>v. v / real (length m)) (col_sums m)"

text \<open>
  \<open>adjust_read_counts\<close>: row \<open>i\<close> of \<open>x_adj\<close> is rewritten from row \<open>i\<close> of \<open>x\<close>,
  divided by \<open>1 - rho[i, :]\<close> when \<open>use_baseline_selection[i]\<close> holds and by
  \<open>1 - avg_di_score\<close> when it does not. A flag beyond the rows of \<open>x\<close>, \<open>x_adj\<close> or
  \<open>rho\<close> is an index out of range.
\<close>

definition adjust_read_counts :: "nmfoa \<Rightarrow> error + nmfoa" where
  "adjust_read_counts self =
     (let ubs = use_baseline_selection self;
          avg_di_score = col_means (rho self) in
      if length ubs > length (x_counts self) \<or> length ubs > length (x_adj self)
         \<or> list_ex (\<lambda>i. ubs ! i) [length (rho self) ..< length ubs]
      then Inl IndexError
      else Inr (self\<lparr> x_adj :=
        map (\<lambda>i. if i < length ubs then
                    (if ubs ! i then map2 (\<lambda>c r. c / (1 - r)) (x_counts self ! i) (rho self ! i)
                     else map2 (\<lambda>c a. c / (1 - a)) (x_counts self ! i) avg_di_score)
                  else x_adj self ! i)
            [0 ..< length (x_adj self)] \<rparr>))"

subsection \<open>\<open>fit\<close> and \<open>transform\<close>\<close>

definition shape :: "ndarray \<Rightarrow> nat list" where
  "shape a = (case a of
       A0 _ \<Rightarrow> []
     | A1 v \<Rightarrow> [length v]
     | A2 m \<Rightarrow> [nrows m, ncols m]
     | A3 t \<Rightarrow> [length t, ncols t, (case t of [] \<Rightarrow> 0 | m # _ \<Rightarrow> ncols m)])"

definition ndim :: "ndarray \<Rightarrow> nat" where
  "ndim a = length (shape a)"

definition shape_at :: "ndarray \<Rightarrow> nat \<Rightarrow> error + nat" where
  "shape_at a k = (if k < ndim a then Inr (shape a ! k) else Inl IndexError)"

text \<open>Eight bytes for each element (float64).\<close>

definition nbytes :: "ndarray \<Rightarrow> nat" where
  "nbytes a = 8 * prod_list (shape a)"

definition as_matrix :: "ndarray \<Rightarrow> error + matrix" where
  "as_matrix a = (case a of A2 m \<Rightarrow> Inr m | _ \<Rightarrow> Inl SvdError)"

text \<open>
  A method that raises leaves the object as it was at the \<open>raise\<close>: the result is the
  error, if any, and the object. \<open>cov_dat\<close> is a dict in insertion order. The warning
  about a matrix taller than wide changes nothing and is left out. \<open>np.vstack\<close> raises
  when the genes' coverage matrices do not all have the same number of rows (samples).
\<close>

definition fit ::
  "nmfoa \<Rightarrow> (string \<times> ndarray) list \<Rightarrow> matrix \<Rightarrow> error option \<times> nmfoa" where
  "fit self cov_dat reads_dat =
     (let s1 = self\<lparr> n_genes := length cov_dat, genes := map fst cov_dat \<rparr> in
      case (case cov_dat of [] \<Rightarrow> Inl StopIteration | kv # _ \<Rightarrow> shape_at (snd kv) 0) of
        Inl e \<Rightarrow> (Some e, s1)
      | Inr p0 \<Rightarrow>
      let s2 = s1\<lparr> p_samples := p0, cov_mats := map snd cov_dat, x_counts := reads_dat,
                   x_adj := reads_dat,
                   use_baseline_selection := replicate (length cov_dat) True \<rparr> in
      case mapE (\<lambda>a. shape_at a 1) (cov_mats s2) of
        Inl e \<Rightarrow> (Some e, s2)
      | Inr ls \<Rightarrow>
      let s3 = s2\<lparr> Lis := ls \<rparr> in
      if length (x_counts s3) \<noteq> n_genes s3 then (Some GeneCountMismatch, s3)
      else if \<not> list_all (\<lambda>z. ndim z = 2) (cov_mats s3) then (Some NotAll2d, s3)
      else if downsample_rate s3 > 1 \<and> \<not> (Min (set (Lis s3)) \<ge> downsample_rate s3)
        then (Some DownsampleRateTooLarge, s3)
      else
        let sample_sums = map (\<lambda>a. case a of A2 m \<Rightarrow> row_sums m | _ \<Rightarrow> []) (cov_mats s3) in
        if \<not> list_all (\<lambda>v. length v = length (hd sample_sums)) sample_sums
        then (Some VstackMismatch, s3)
        else
        let s4 = s3\<lparr> cov_sums := sample_sums \<rparr>;
            mem_splits0 = nat \<lceil>real (sum_list (map nbytes (cov_mats s4))) / 100000000\<rceil>;
            s5 = s4\<lparr> mem_splits := (if mem_splits0 > n_jobs s4 then mem_splits0 else n_jobs s4) \<rparr>
        in (None, s5\<lparr> fitted := True \<rparr>))"

text \<open>One round: new estimates are stored, then the scale factors, the coverage curves
  and the read counts are updated.\<close>

definition update_round :: "nmfoa \<Rightarrow> matrix list \<Rightarrow> matrix list \<Rightarrow> error option \<times> nmfoa" where
  "update_round self mats ests =
     (let s1 = self\<lparr> estimates := ests \<rparr> in
      case compute_scale_factors s1 ests of
        Inl e \<Rightarrow> (Some e, s1)
      | Inr s2 \<Rightarrow>
      let s3 = adjust_coverage_curves s2 mats in
      case adjust_read_counts s3 of
        Inl e \<Rightarrow> (Some e, s3)
      | Inr s4 \<Rightarrow> (None, s4))"

text \<open>\<open>while i < self.degnorm_iter\<close>, with \<open>k\<close> rounds left; \<open>scheds n\<close> is the
  scheduling of the threads in the \<open>n\<close>-th call of \<open>Parallel\<close> that \<open>transform\<close> makes
  (the call of \<open>par_apply_nmf\<close> is call 0, round \<open>i\<close> is call \<open>i + 1\<close>), and \<open>g\<close> is the
  generator.\<close>

primrec degnorm_rounds ::
  "svds \<Rightarrow> (nat \<Rightarrow> nat list) \<Rightarrow> matrix list \<Rightarrow> nat \<Rightarrow> nat \<Rightarrow> nmfoa \<Rightarrow> rng \<Rightarrow>
   (error option \<times> nmfoa) \<times> rng" where
  "degnorm_rounds svd scheds mats i 0 self g = ((None, self), g)"
| "degnorm_rounds svd scheds mats i (Suc k) self g =
     (case par_apply_baseline_selection self svd (scheds (Suc i)) (cov_mats_adj self) g of
        (Inl e, g1) \<Rightarrow> ((Some e, self), g1)
      | (Inr (s1, ests), g1) \<Rightarrow>
          (case update_round s1 mats ests of
             (Some e, s2) \<Rightarrow> ((Some e, s2), g1)
           | (None, s2) \<Rightarrow> degnorm_rounds svd scheds mats (Suc i) k s2 g1))"

text \<open>\<open>svds\<close> refuses an array that is not 2-d; \<open>fit\<close> admits none.\<close>

definition transform ::
  "nmfoa \<Rightarrow> svds \<Rightarrow> (nat \<Rightarrow> nat list) \<Rightarrow> rng \<Rightarrow> (error option \<times> nmfoa) \<times> rng" where
  "transform self svd scheds g =
     (if \<not> fitted self then ((Some NotFitted, self), g)
      else
        case mapE as_matrix (cov_mats self) of
          Inl e \<Rightarrow> ((Some e, self), g)
        | Inr mats \<Rightarrow>
        case par_apply_nmf self svd (scheds 0) mats of
          Inl e \<Rightarrow> ((Some e, self), g)
        | Inr ests \<Rightarrow>
        case update_round self mats ests of
          (Some e, s1) \<Rightarrow> ((Some e, s1), g)
        | (None, s1) \<Rightarrow>
        case degnorm_rounds svd scheds mats 0 (degnorm_iter s1) s1 g of
          ((Some e, s2), g1) \<Rightarrow> ((Some e, s2), g1)
        | ((None, s2), g1) \<Rightarrow> ((None, s2\<lparr> transformed := True \<rparr>), g1))"

definition fit_transform ::
  "nmfoa \<Rightarrow> svds \<Rightarrow> (nat \<Rightarrow> nat list) \<Rightarrow> rng \<Rightarrow> (string \<times> ndarray) list \<Rightarrow> matrix \<Rightarrow>
   (error option \<times> nmfoa) \<times> rng" where
  "fit_transform self svd scheds g coverage_dat reads_dat =
     (case fit self coverage_dat reads_dat of
        (Some e, s1) \<Rightarrow> ((Some e, s1), g)
      | (None, s1) \<Rightarrow> transform s1 svd scheds g)"

section \<open>Notions used in the statements\<close>

text \<open>\<open>mat_ge A B\<close>: the matrices have the same shape and \<open>A[i, j] >= B[i, j]\<close> at
  every entry.\<close>

definition mat_ge :: "matrix \<Rightarrow> matrix \<Rightarrow> bool" where
  "mat_ge A B = list_all2 (list_all2 (\<lambda>a b. b \<le> a)) A B"

definition has_shape :: "nat \<Rightarrow> nat \<Rightarrow> 'a list list \<Rightarrow> bool" where
  "has_shape r c A = (length A = r \<and> list_all (\<lambda>row. length row = c) A)"

text \<open>What holds of \<open>(K, E, est, lmbda)\<close> at the head of every pass of the loop of
  \<open>nmf\<close> on the matrix \<open>m\<close>.\<close>

definition nmf_inv :: "matrix \<Rightarrow> vec \<times> vec \<times> matrix \<times> matrix \<Rightarrow> bool" where
  "nmf_inv m st = (case st of (K, E, est, lmbda) \<Rightarrow>
     est = outer K E \<and> length K = length m \<and> length E = ncols m \<and>
     has_shape (length m) (ncols m) lmbda)"

text \<open>The contiguous partition of \<open>[0, n * c)\<close> into \<open>n\<close> bins of size \<open>c\<close>.\<close>

definition bin_of :: "nat \<Rightarrow> nat \<Rightarrow> int list" where
  "bin_of c b = map int [b * c ..< Suc b * c]"

definition equal_bins :: "nat \<Rightarrow> nat \<Rightarrow> int list list" where
  "equal_bins c n = map (bin_of c) [0 ..< n]"


section \<open>Worked inputs\<close>

text \<open>
  Concrete runs need a concrete \<open>svds\<close>. \<open>svd_ex\<close> is the truncated singular value
  decomposition on the rank-one matrices used below and refuses every other matrix:
  on \<open>[[3, 4], [0, 0]]\<close> it is \<open>u = (1, 0)\<close>, \<open>s = 5\<close>, \<open>v = (3/5, 4/5)\<close>; on the
  two-row matrix with \<open>k\<close> columns whose rows are constantly \<open>3/10\<close> and \<open>4/10\<close> it is
  \<open>u = (3/5, 4/5)\<close>, \<open>s = sqrt k / 2\<close>, \<open>v = (1 / sqrt k, ...)\<close>.
\<close>

definition svd_ex :: svds where
  "svd_ex m =
     (if m = [[3, 4], [0, 0]] then Inr ([1, 0], 5, [3 / 5, 4 / 5])
      else case m of
        [r1, r2] \<Rightarrow>
          (let k = length r1 in
           if k \<noteq> 0 \<and> length r2 = k \<and> list_all (\<lambda>v. v = 3 / 10) r1
              \<and> list_all (\<lambda>v. v = 4 / 10) r2
           then Inr ([3 / 5, 4 / 5], sqrt (real k) / 2, map (\<lambda>_. 1 / sqrt (real k)) r1)
           else Inl SvdError)
      | _ \<Rightarrow> Inl SvdError)"

text \<open>Two samples, two positions; the second sample has no coverage.\<close>

definition F0 :: matrix where
  "F0 = [[3, 4], [0, 0]]"

text \<open>\<open>GeneNMFOA(min_high_coverage=1, nmf_iter=1, n_jobs=2)\<close> (20 bins, no
  downsampling), fitted on three genes with the coverage \<open>F0\<close>.\<close>

definition cov_ex :: "(string \<times> ndarray) list" where
  "cov_ex = [(''a'', A2 F0), (''b'', A2 F0), (''c'', A2 F0)]"

definition reads_ex :: matrix where
  "reads_ex = [[1, 1], [1, 1], [1, 1]]"

definition self_ex :: nmfoa where
  "self_ex = snd (fit (init 5 1 1 1 20 2) cov_ex reads_ex)"

text \<open>Two samples, five positions, and the objects \<open>GeneNMFOA()\<close>,
  \<open>GeneNMFOA(downsample_rate=5)\<close> and \<open>GeneNMFOA(downsample_rate=6)\<close> (one worker).\<close>

definition F_len5 :: matrix where
  "F_len5 = [[1, 1, 1, 1, 1], [1, 1, 1, 1, 1]]"

definition self_default :: nmfoa where
  "self_default = init 5 1 50 100 20 1"

definition self_stride5 :: nmfoa where
  "self_stride5 = init 5 5 50 100 20 1"

definition self_stride6 :: nmfoa where
  "self_stride6 = init 5 6 50 100 20 1"

text \<open>\<open>GeneNMFOA(downsample_rate=2)\<close>, and a coverage matrix with one covered position.\<close>

definition self_stride2 :: nmfoa where
  "self_stride2 = init 5 2 50 100 20 1"

definition F_peak :: matrix where
  "F_peak = [[10, 0, 0], [10, 0, 0]]"

text \<open>An object between two rounds: two genes, two samples; gene 0 went through
  baseline selection, gene 1 did not.\<close>

definition self_counts :: nmfoa where
  "self_counts = self_default
     \<lparr> use_baseline_selection := [True, False], x_counts := [[1, 1], [7, 7]],
       x_adj := [[1, 1], [7, 7]], rho := [[1 / 2, 1 / 2], [1 / 10, 1 / 10]] \<rparr>"

text \<open>
  The divisor of the spec for a gene that is not eligible, in the spec's words: the
  per-sample mean DI score taken across the baseline-eligible genes.
\<close>

definition spec_eligible_mean_rho :: "nmfoa \<Rightarrow> vec" where
  "spec_eligible_mean_rho self =
     col_means (map snd (filter fst (zip (use_baseline_selection self) (rho self))))"

text \<open>
  A gene with seven positions whose two samples are constantly \<open>3/10\<close> and \<open>4/10\<close>,
  the object \<open>GeneNMFOA(min_high_coverage=1, nmf_iter=1, bins=7, n_jobs=1)\<close>, and the
  factors \<open>K = u * s\<close>, \<open>E = v\<close> of that gene's singular value decomposition.
\<close>

definition F_trim :: "nat \<Rightarrow> matrix" where
  "F_trim k = [replicate k (3 / 10), replicate k (4 / 10)]"

definition self_trim :: nmfoa where
  "self_trim = init 5 1 1 1 7 1"

definition K_trim :: vec where
  "K_trim = [3 / 5 * (sqrt 7 / 2), 4 / 5 * (sqrt 7 / 2)]"

definition E_trim :: vec where
  "E_trim = [1 / sqrt 7, 1 / sqrt 7, 1 / sqrt 7, 1 / sqrt 7, 1 / sqrt 7, 1 / sqrt 7, 1 / sqrt 7]"





text \<open>
  \<open>GeneNMFOA(degnorm_iter=0, downsample_rate=3, min_high_coverage=1, nmf_iter=1, bins=7,
  n_jobs=1)\<close> after \<open>fit\<close> on the gene with seven positions above, and what is left of
  it after a second \<open>fit\<close>, on the gene with two positions, has raised.
\<close>

definition self_refit :: nmfoa where
  "self_refit = snd (fit (init 0 3 1 1 7 1) [(''g'', A2 (F_trim 7))] [[1, 1]])"

definition self_refit_failed :: nmfoa where
  "self_refit_failed = self_refit
     \<lparr> n_genes := 1, genes := [''g''], p_samples := 2, cov_mats := [A2 (F_trim 2)],
       x_counts := [[1, 1]], x_adj := [[1, 1]], use_baseline_selection := [True], Lis := [2] \<rparr>"




section \<open>Properties\<close>

subsection \<open>Basic facts\<close>

lemma bindE_simps [simp]:
  "bindE (Inl e) f = Inl e"
  "bindE (Inr v) f = f v"
  by (simp_all add: bindE_def)

lemma bindE_Inr_iff:
  "bindE m f = Inr r \<longleftrightarrow> (\<exists>v. m = Inr v \<and> f v = Inr r)"
  by (cases m) simp_all

lemma minl_Cons: "minl (v # vs) = Min (set (v # vs))"
  by (simp only: minl.simps Min.set_eq_fold)

lemma minl_Min: "vs \<noteq> [] \<Longrightarrow> minl vs = Min (set vs)"
  by (cases vs) (simp, simp only: minl_Cons)

lemma maxl_Cons: "maxl (v # vs) = Max (set (v # vs))"
  by (simp only: maxl.simps Max.set_eq_fold)

lemma maxl_Max: "vs \<noteq> [] \<Longrightarrow> maxl vs = Max (set vs)"
  by (cases vs) (simp, simp only: maxl_Cons)

lemma eps_pos: "0 < eps"
  by (simp add: eps_def)

lemma init_simps:
  "nmf_iter (init a b c d e f) = nat \<bar>d\<bar>"
  "bins (init a b c d e f) = nat \<bar>e\<bar>"
  "min_high_coverage (init a b c d e f) = nat \<bar>c\<bar>"
  "downsample_rate (init a b c d e f) = nat \<bar>b\<bar>"
  "min_bins (init a b c d e f) = nat \<lceil>real (nat \<bar>e\<bar>) * (3 / 10)\<rceil>"
  "n_jobs (init a b c d e f) = nat \<bar>f\<bar>"
  "degnorm_iter (init a b c d e f) = nat \<bar>a\<bar>"
  "fitted (init a b c d e f) = False"
  by (simp_all add: init_def)

lemma F_trim_2: "F_trim 2 = [[3 / 10, 3 / 10], [4 / 10, 4 / 10]]"
  by (simp add: F_trim_def eval_nat_numeral)

lemma F_trim_3: "F_trim 3 = [[3 / 10, 3 / 10, 3 / 10], [4 / 10, 4 / 10, 4 / 10]]"
  by (simp add: F_trim_def eval_nat_numeral)

lemma F_trim_4: "F_trim 4 = [[3 / 10, 3 / 10, 3 / 10, 3 / 10], [4 / 10, 4 / 10, 4 / 10, 4 / 10]]"
  by (simp add: F_trim_def eval_nat_numeral)

lemma F_trim_5: "F_trim 5 = [[3 / 10, 3 / 10, 3 / 10, 3 / 10, 3 / 10], [4 / 10, 4 / 10, 4 / 10, 4 / 10, 4 / 10]]"
  by (simp add: F_trim_def eval_nat_numeral)

lemma F_trim_6: "F_trim 6 = [[3 / 10, 3 / 10, 3 / 10, 3 / 10, 3 / 10, 3 / 10], [4 / 10, 4 / 10, 4 / 10, 4 / 10, 4 / 10, 4 / 10]]"
  by (simp add: F_trim_def eval_nat_numeral)

lemma F_trim_7: "F_trim 7 = [[3 / 10, 3 / 10, 3 / 10, 3 / 10, 3 / 10, 3 / 10, 3 / 10], [4 / 10, 4 / 10, 4 / 10, 4 / 10, 4 / 10, 4 / 10, 4 / 10]]"
  by (simp add: F_trim_def eval_nat_numeral)

subsection \<open>\<open>svd_ex\<close> is a singular value decomposition\<close>

text \<open>Where \<open>svd_ex\<close> answers, \<open>u * s * v\<close> is its argument, \<open>u\<close> and \<open>v\<close> are unit
  vectors and \<open>s\<close> is positive.\<close>

lemma const_row:
  assumes "list_all (\<lambda>v. v = a) r" and "k * e = a"
  shows "map (\<lambda>e'. k * e') (map (\<lambda>_. e) r) = r"
  using assms by (induction r) simp_all

lemma sum_const: "sum_list (map (\<lambda>a. a * a) (map (\<lambda>_. e) r)) = real (length r) * (e * e)"
  by (induction r) (simp_all add: algebra_simps)

lemma svd_ex_exact:
  assumes "svd_ex m = Inr (u, s, v)"
  shows "outer (map (\<lambda>ui. ui * s) u) v = m \<and> sum_list (map (\<lambda>a. a * a) u) = 1 \<and>
     sum_list (map (\<lambda>a. a * a) v) = 1 \<and> 0 < s"
proof (cases "m = [[3, 4], [0, 0]]")
  case True
  with assms show ?thesis
    by (auto simp: svd_ex_def outer_def)
next
  case False
  with assms obtain r1 r2 where m: "m = [r1, r2]" and k: "length r1 \<noteq> 0"
    and l2: "length r2 = length r1"
    and a1: "list_all (\<lambda>v. v = 3 / 10) r1" and a2: "list_all (\<lambda>v. v = 4 / 10) r2"
    and u: "u = [3 / 5, 4 / 5]" and s: "s = sqrt (real (length r1)) / 2"
    and v: "v = map (\<lambda>_. 1 / sqrt (real (length r1))) r1"
    by (auto simp: svd_ex_def Let_def split: list.splits if_splits)
  let ?q = "sqrt (real (length r1))"
  have q: "0 < ?q" using k by simp
  then have qq: "?q * ?q = real (length r1)" by simp
  have e1: "3 / 5 * (?q / 2) * (1 / ?q) = 3 / 10" using q by simp
  have e2: "4 / 5 * (?q / 2) * (1 / ?q) = 4 / 10" using q by simp
  have v2: "v = map (\<lambda>_. 1 / ?q) r2"
    unfolding v using l2 by (simp add: map_replicate_const)
  have r1: "map (\<lambda>e'. 3 / 5 * (?q / 2) * e') v = r1"
    unfolding v by (rule const_row [OF a1 e1])
  have r2: "map (\<lambda>e'. 4 / 5 * (?q / 2) * e') v = r2"
    unfolding v2 by (rule const_row [OF a2 e2])
  have "sum_list (map (\<lambda>a. a * a) v) = real (length r1) * (1 / ?q * (1 / ?q))"
    unfolding v by (rule sum_const)
  also have "\<dots> = 1" using q qq by (simp add: field_simps)
  finally have sv: "sum_list (map (\<lambda>a. a * a) v) = 1" .
  have "outer (map (\<lambda>ui. ui * s) u) v =
      [map (\<lambda>e'. 3 / 5 * (?q / 2) * e') v, map (\<lambda>e'. 4 / 5 * (?q / 2) * e') v]"
    by (simp only: outer_def u s list.map)
  then have o: "outer (map (\<lambda>ui. ui * s) u) v = m"
    unfolding r1 r2 m .
  have su: "sum_list (map (\<lambda>a. a * a) u) = 1"
    by (simp add: u)
  from o su sv q show ?thesis
    by (simp add: s)
qed

subsection \<open>The run of \<open>baseline_selection\<close> on \<open>F0\<close>\<close>

lemma fit_ex:
  "fit (init 5 1 1 1 20 2) cov_ex reads_ex =
     (None, (init 5 1 1 1 20 2)
        \<lparr> n_genes := 3, genes := [''a'', ''b'', ''c''], p_samples := 2,
          cov_mats := [A2 F0, A2 F0, A2 F0], x_counts := reads_ex, x_adj := reads_ex,
          use_baseline_selection := [True, True, True], Lis := [2, 2, 2],
          cov_sums := [[7, 0], [7, 0], [7, 0]], mem_splits := 2, fitted := True \<rparr>)"
  by (simp add: fit_def cov_ex_def reads_ex_def F0_def init_def shape_at_def ndim_def shape_def
        nrows_def ncols_def Let_def nbytes_def row_sums_def)

lemma self_ex_simps:
  "nmf_iter self_ex = 1" "bins self_ex = 20" "min_high_coverage self_ex = 1"
  "downsample_rate self_ex = 1" "min_bins self_ex = 6" "mem_splits self_ex = 2"
  "fitted self_ex"
  by (simp_all add: self_ex_def fit_ex init_simps)

lemma nmf_fit_F0: "nmf_fit self_ex svd_ex F0 = Inr ([5, 0], [3 / 5, 4 / 5], F0, [[0, 0], [0, 0]])"
  by (simp add: nmf_fit_def self_ex_simps F0_def rank_one_approx_def svd_ex_def
       outer_def nmf_step_def mat_map2_def Let_def)

lemma nmf_factors_F0: "nmf_factors self_ex svd_ex F0 = Inr ([5, 0], [3 / 5, 4 / 5])"
  by (simp add: nmf_factors_def nmf_fit_F0)

lemma nmf_F0: "nmf self_ex svd_ex F0 = Inr F0"
  by (simp add: nmf_def nmf_fit_F0) (simp add: over_approx_def mat_map2_def F0_def)

lemma hi_F0: "get_high_coverage_idx F0 = Inr [0, 1]"
  by (simp add: get_high_coverage_idx_def F0_def ncols_def upt_rec)

lemma bs_init_F0:
  "bs_init self_ex F0 [5, 0] [3 / 5, 4 / 5] =
     \<lparr> n_bins = 2, bin_segs = [[0], [1]], F_bin = F0, KE_bin = F0, rho_vec = [1 / 8, 1 - eps] \<rparr>"
  by (simp add: bs_init_def self_ex_simps F0_def ncols_def upt_rec split_into_chunks_def
        chunks_of.simps mat_abs_def outer_def di_scores_def row_sums_def clip_rho_def Let_def)

lemma floor_K_50: "floor_K [5, 0] = Inr [5, 5]"
  by (simp add: floor_K_def eps_def)

lemma baseline_run_F0: "baseline_run self_ex svd_ex F0 [0, 1] = Inr ([[3, 4], [3, 4]], True)"
proof -
  let ?st = "\<lparr> n_bins = 2, bin_segs = [[0], [1]], F_bin = F0, KE_bin = F0,
               rho_vec = [1 / 8, 1 - eps] \<rparr>"
  have sel: "map (\<lambda>r. map (\<lambda>j. r ! j) (sort [0, 1 :: nat])) F0 = F0"
    by (simp add: F0_def)
  have loop: "bs_loop self_ex svd_ex ?st = Inr ?st"
    by (subst bs_loop.simps) (simp add: self_ex_simps)
  have mx: "np_max [1 / 8, 1 - eps] = Inr (1 - eps)"
    by (simp add: np_max_def eps_def)
  have big: "\<not> 1 - eps < 0.1"
    by (simp add: eps_def)
  have fin: "over_approx (mat_abs (outer [5, 5] (refine_E F0 [5, 5]))) F0 = [[3, 4], [3, 4]]"
    by (simp add: refine_E_def F0_def ncols_def upt_rec outer_def mat_abs_def over_approx_def
          mat_map2_def)
  show ?thesis
    unfolding baseline_run_def Let_def sel
    by (simp only: nmf_factors_F0 bindE_simps prod.case bs_init_F0 loop mx big if_False
          floor_K_50 fin bs_state.simps)
qed

lemma baseline_selection_F0:
  "baseline_selection self_ex svd_ex 0 F0 = Inr ([[3, 4], [3, 4]], True)"
  using baseline_run_F0 by (simp add: baseline_selection_def hi_F0 self_ex_simps)

subsection \<open>C5: dropping a bin and renumbering\<close>

text \<open>
  C5. Claim: for every contiguous partition of \<open>[0, N)\<close> into equal-size bins and every
  bin dropped, deleting the bin and applying \<open>shift_bins\<close> gives a contiguous partition
  of \<open>[0, N - droppedBinSize)\<close>. The comment at the call says the same: "all bins are
  referencing indices in newly shrunken coverage matrices". The code returns its
  argument unchanged whenever one bin is left, also when that bin has to move: on
  the partition \<open>[[0, 1], [2, 3]]\<close> of \<open>[0, 4)\<close> with bin 0 dropped, the surviving bin
  stays \<open>[2, 3]\<close>, which is not \<open>[0, 2)\<close>.
\<close>

theorem shift_bins_single_survivor:
  "drop_and_shift [[0, 1], [2, 3]] 0 = Inr [[2, 3]] \<and>
   sort (concat [[2, 3 :: int]]) \<noteq> map int [0 ..< 4 - 2]"
  by (simp add: drop_and_shift_def del_at_def shift_bins_def upt_rec)

text \<open>
  In every other case the renumbering is right: unless exactly two bins exist and the
  first one is dropped, deleting bin \<open>d\<close> of the partition of \<open>[0, n * c)\<close> and
  applying \<open>shift_bins\<close> gives the partition of \<open>[0, (n - 1) * c)\<close>, whose
  concatenation is \<open>0, 1, ..., (n - 1) * c - 1\<close>.
\<close>

lemma bin_of_shift: "map (\<lambda>idx. idx - int c) (bin_of c (Suc b)) = bin_of c b"
proof -
  have "[Suc b * c ..< Suc (Suc b) * c] = map (\<lambda>i. i + c) [b * c ..< Suc b * c]"
    by (rule nth_equalityI) (simp_all add: algebra_simps)
  then show ?thesis
    by (simp add: bin_of_def o_def)
qed

lemma bin_of_first: "0 < c \<Longrightarrow> first_of (bin_of c b) = Inr (int (b * c))"
  by (simp add: bin_of_def first_of_def upt_conv_Cons split: list.splits)

lemma bin_of_last: "0 < c \<Longrightarrow> last_of (bin_of c b) = Inr (int (Suc b * c) - 1)"
proof -
  assume c: "0 < c"
  then have ne: "[b * c ..< Suc b * c] \<noteq> []" by simp
  have "last [b * c ..< Suc b * c] = Suc b * c - 1"
    using c by (cases c) simp_all
  with ne c show ?thesis
    by (simp add: bin_of_def last_of_def last_map of_nat_diff)
qed

lemma shifted_tail:
  "map (map (\<lambda>idx. idx - int c)) (map (bin_of c) [Suc d ..< n]) = map (bin_of c) [d ..< n - 1]"
proof -
  have "[Suc d ..< n] = map Suc [d ..< n - 1]"
    by (cases n) (simp_all add: map_Suc_upt)
  then show ?thesis
    by (simp add: o_def bin_of_shift)
qed

lemma del_at_equal_bins:
  assumes "d < n"
  shows "del_at (equal_bins c n) d = Inr (map (bin_of c) [0 ..< d] @ map (bin_of c) [Suc d ..< n])"
  using assms by (simp add: del_at_def equal_bins_def take_map drop_map)

lemma upt_split: "d \<le> m \<Longrightarrow> [0 ..< d] @ [d ..< m] = [0 ..< m]"
  by (metis le0 upt_add_eq_append le_add_diff_inverse add_0)

lemma drop_and_shift_equal_bins:
  assumes c: "0 < c" and d: "d < n" and ok: "\<not> (n = 2 \<and> d = 0)"
  shows "drop_and_shift (equal_bins c n) d = Inr (equal_bins c (n - 1))"
proof -
  let ?B = "map (bin_of c) [0 ..< d] @ map (bin_of c) [Suc d ..< n]"
  have len: "length ?B = n - 1" using d by simp
  have goal: "map (bin_of c) [0 ..< d] @ map (bin_of c) [d ..< n - 1] = equal_bins c (n - 1)"
    using d upt_split [of d "n - 1"] by (simp add: equal_bins_def flip: map_append)
  have "shift_bins ?B d = Inr (equal_bins c (n - 1))"
  proof (cases "d = n - 1")
    case True
    then have e: "[Suc d ..< n] = []" "[d ..< n - 1] = []" using d by simp_all
    from goal have B: "?B = equal_bins c (n - 1)" unfolding e .
    have "length (equal_bins c (n - 1)) = d"
      using True by (simp add: equal_bins_def)
    then have "shift_bins (equal_bins c (n - 1)) d = Inr (equal_bins c (n - 1))"
      by (simp add: shift_bins_def)
    with B show ?thesis by simp
  next
    case False
    with d have lt: "d < n - 1" by simp
    with ok have n1: "n - 1 \<noteq> 1" by auto
    have bd: "bin_at ?B d = Inr (bin_of c (Suc d))"
      using lt by (simp add: bin_at_def nth_append)
    have "shift_from ?B d (int c) =
        map (bin_of c) [0 ..< d] @
        map (map (\<lambda>idx. idx - int c)) (map (bin_of c) [Suc d ..< n])"
      by (simp add: shift_from_def del: map_map)
    then have sh: "shift_from ?B d (int c) = equal_bins c (n - 1)"
      unfolding shifted_tail goal .
    show ?thesis
    proof (cases "d = 0")
      case True
      with bd bin_of_first [OF c, of "Suc 0"] sh lt n1 show ?thesis
        by (simp add: shift_bins_def len)
    next
      case False
      then obtain d' where d': "d = Suc d'" by (cases d) auto
      have bp: "bin_at ?B (d - 1) = Inr (bin_of c d')"
        using lt d' by (simp add: bin_at_def nth_append)
      have delta: "int (Suc d * c) - (int (Suc d' * c) - 1) - 1 = int c"
        using d' by (simp add: algebra_simps)
      from False lt n1 bd bp bin_of_first [OF c, of "Suc d"] bin_of_last [OF c, of d']
      have "shift_bins ?B d =
          Inr (shift_from ?B d (int (Suc d * c) - (int (Suc d' * c) - 1) - 1))"
        by (simp add: shift_bins_def len)
      then show ?thesis
        unfolding delta sh .
    qed
  qed
  then show ?thesis
    by (simp add: drop_and_shift_def del_at_equal_bins [OF d])
qed

lemma concat_equal_bins: "concat (equal_bins c n) = map int [0 ..< n * c]"
proof (induction n)
  case 0
  show ?case by (simp add: equal_bins_def)
next
  case (Suc n)
  have "[0 ..< Suc n * c] = [0 ..< n * c] @ [n * c ..< Suc n * c]"
    by (metis le0 upt_add_eq_append add_0 mult_Suc add.commute)
  with Suc show ?case
    by (simp add: equal_bins_def bin_of_def)
qed

subsection \<open>C8: the floor of \<open>K\<close>\<close>

lemma floor_K_Inr:
  assumes "floor_K K = Inr K'"
  shows "filter (\<lambda>k. eps \<le> k) K \<noteq> []"
    and "K' = map (\<lambda>k. if k < eps then minl (filter (\<lambda>k. eps \<le> k) K) else k) K"
  using assms by (auto simp: floor_K_def Let_def split: if_splits)

lemma floor_K_bound:
  assumes "floor_K K = Inr K'" and "k \<in> set K'"
  shows "eps \<le> k"
proof -
  let ?big = "filter (\<lambda>k. eps \<le> k) K"
  have ne: "?big \<noteq> []" and eq: "K' = map (\<lambda>k. if k < eps then minl ?big else k) K"
    using floor_K_Inr [OF assms(1)] by simp_all
  have "minl ?big \<in> set ?big"
    using ne by (metis minl_Min Min_in List.finite_set set_empty)
  then have m: "eps \<le> minl ?big" by simp
  from assms(2) eq obtain k0 where "k0 \<in> set K"
    and "k = (if k0 < eps then minl ?big else k0)" by auto
  then show ?thesis using m by (simp split: if_splits)
qed

lemma floor_K_smallest:
  assumes "floor_K K = Inr K'" and "i < length K" and "K ! i < eps"
  shows "K' ! i = Min {k \<in> set K. eps \<le> k}"
proof -
  let ?big = "filter (\<lambda>k. eps \<le> k) K"
  have ne: "?big \<noteq> []" and eq: "K' = map (\<lambda>k. if k < eps then minl ?big else k) K"
    using floor_K_Inr [OF assms(1)] by simp_all
  have "K' ! i = minl ?big" using assms(2,3) eq by simp
  also have "\<dots> = Min (set ?big)" by (rule minl_Min [OF ne])
  also have "set ?big = {k \<in> set K. eps \<le> k}" by auto
  finally show ?thesis .
qed

lemma baseline_run_floor:
  assumes "baseline_run self svd F hi = Inr (est, flag)"
  shows "\<exists>K1 K2. floor_K K1 = Inr K2 \<and> est = over_approx (mat_abs (outer K2 (refine_E F K2))) F"
  using assms
  by (auto simp: baseline_run_def Let_def bindE_Inr_iff split: prod.splits)

text \<open>
  C8. When the flooring step \<open>K[K < 1.e-5] = np.min(K[K >= 1.e-5])\<close> completes, \<open>K\<close>
  keeps its length, every entry is at least \<open>eps = 1e-5\<close> (so none is 0), an entry
  that was below \<open>eps\<close> is now the smallest entry of the old \<open>K\<close> that is at least
  \<open>eps\<close>, and the others are unchanged. Every estimate \<open>baseline_selection\<close> computes
  after its early exits divides \<open>F\<close> by such a floored \<open>K\<close>. (The step raises when no
  entry of \<open>K\<close> reaches \<open>eps\<close>.)
\<close>

theorem floor_K_at_least_eps:
  "(floor_K K = Inr K' \<longrightarrow>
      length K' = length K \<and>
      (\<forall>k \<in> set K'. eps \<le> k \<and> k \<noteq> 0) \<and>
      (\<forall>i < length K. K' ! i = (if K ! i < eps then Min {k \<in> set K. eps \<le> k} else K ! i)))
   \<and> (baseline_run self svd F hi = Inr (est, flag) \<longrightarrow>
      (\<exists>K1 K2. floor_K K1 = Inr K2 \<and> (\<forall>k \<in> set K2. eps \<le> k \<and> k \<noteq> 0) \<and>
         est = over_approx (mat_abs (outer K2 (refine_E F K2))) F))"
proof (intro conjI impI)
  assume a: "floor_K K = Inr K'"
  show "length K' = length K"
    using floor_K_Inr(2) [OF a] by simp
  show "\<forall>k \<in> set K'. eps \<le> k \<and> k \<noteq> 0"
    using floor_K_bound [OF a] eps_pos by fastforce
  show "\<forall>i < length K. K' ! i = (if K ! i < eps then Min {k \<in> set K. eps \<le> k} else K ! i)"
  proof (intro allI impI)
    fix i assume i: "i < length K"
    show "K' ! i = (if K ! i < eps then Min {k \<in> set K. eps \<le> k} else K ! i)"
    proof (cases "K ! i < eps")
      case True
      then show ?thesis using floor_K_smallest [OF a i] by simp
    next
      case False
      then show ?thesis using floor_K_Inr(2) [OF a] i by simp
    qed
  qed
next
  assume b: "baseline_run self svd F hi = Inr (est, flag)"
  from baseline_run_floor [OF b] obtain K1 K2 where
    f: "floor_K K1 = Inr K2" and e: "est = over_approx (mat_abs (outer K2 (refine_E F K2))) F"
    by blast
  have "\<forall>k \<in> set K2. eps \<le> k \<and> k \<noteq> 0"
    using floor_K_bound [OF f] eps_pos by fastforce
  with f e show "\<exists>K1 K2. floor_K K1 = Inr K2 \<and> (\<forall>k \<in> set K2. eps \<le> k \<and> k \<noteq> 0) \<and>
         est = over_approx (mat_abs (outer K2 (refine_E F K2))) F"
    by blast
qed

theorem floor_K_at_least_eps_witness:
  "floor_K [5, 0] = Inr [5, 5] \<and> length [5, 5 :: real] = length [5, 0 :: real] \<and>
   eps \<le> 5 \<and> [5, 5 :: real] ! 1 = Min {k \<in> set [5, 0]. eps \<le> k} \<and>
   baseline_run self_ex svd_ex F0 [0, 1] = Inr ([[3, 4], [3, 4]], True) \<and>
   (\<exists>K1 K2. floor_K K1 = Inr K2 \<and> (\<forall>k \<in> set K2. eps \<le> k \<and> k \<noteq> 0) \<and>
      [[3, 4], [3, 4]] = over_approx (mat_abs (outer K2 (refine_E F0 K2))) F0)"
proof -
  note t = floor_K_at_least_eps [of "[5, 0]" "[5, 5]" self_ex svd_ex F0 "[0, 1]" "[[3, 4], [3, 4]]" True]
  have c1: "floor_K [5, 0] = Inr [5, 5]"
    by (rule floor_K_50)
  have c2: "length [5, 5 :: real] = length [5, 0 :: real]"
    by simp
  have c3: "eps \<le> 5"
    by (simp add: eps_def)
  have all: "\<forall>i < length [5, 0 :: real]. [5, 5 :: real] ! i =
      (if [5, 0 :: real] ! i < eps then Min {k \<in> set [5, 0]. eps \<le> k} else [5, 0] ! i)"
    using t c1 by blast
  have c4: "[5, 5 :: real] ! 1 = Min {k \<in> set [5, 0]. eps \<le> k}"
    using all [rule_format, of 1] eps_pos by simp
  have c5: "baseline_run self_ex svd_ex F0 [0, 1] = Inr ([[3, 4], [3, 4]], True)"
    by (rule baseline_run_F0)
  have c6: "\<exists>K1 K2. floor_K K1 = Inr K2 \<and> (\<forall>k \<in> set K2. eps \<le> k \<and> k \<noteq> 0) \<and>
      [[3, 4], [3, 4]] = over_approx (mat_abs (outer K2 (refine_E F0 K2))) F0"
    using t c5 by blast
  from c1 c2 c3 c4 c5 c6 show ?thesis
    by blast
qed

subsection \<open>C7: chunked and serial application\<close>

lemma mapE_Inl: "mapE f xs = Inl e \<Longrightarrow> \<exists>v \<in> set xs. f v = Inl e"
proof (induction xs)
  case Nil
  then show ?case by simp
next
  case (Cons x xs)
  then show ?case
    by (cases "f x"; cases "mapE f xs") auto
qed






text \<open>The two cases of \<open>baseline_selection_call\<close>: when the generator is asked,
  \<open>downsample_2d\<close> returns the systematic sample that starts at the value drawn; when
  it is not, the result of \<open>baseline_selection\<close> is the same for every value.\<close>

lemma downsample_2d_draw:
  "asks_generator self F \<Longrightarrow>
     downsample_2d self start F False =
       Inr (map (\<lambda>r. map (\<lambda>j. r ! j) (arange start (ncols F) (downsample_rate self))) F,
            arange start (ncols F) (downsample_rate self))"
  by (auto simp: asks_generator_def downsample_2d_def systematic_sample_def Let_def)

lemma baseline_selection_no_draw:
  "\<not> asks_generator self F \<Longrightarrow>
     baseline_selection self svd start F = baseline_selection self svd 0 F"
  by (auto simp: asks_generator_def baseline_selection_def downsample_2d_def Let_def)




lemma mapS_Inr_nth:
  "mapS f xs g = (Inr ys, g1) \<Longrightarrow>
     length ys = length xs \<and> (\<forall>i < length xs. \<exists>gi gj. f (xs ! i) gi = (Inr (ys ! i), gj))"
proof (induction xs arbitrary: ys g)
  case Nil
  then show ?case by simp
next
  case (Cons x xs)
  from Cons.prems obtain y ys' g2 where y: "f x g = (Inr y, g2)"
    and ys': "mapS f xs g2 = (Inr ys', g1)" and eq: "ys = y # ys'"
    by (auto split: prod.splits sum.splits)
  from Cons.IH [OF ys'] have len: "length ys' = length xs"
    and nth: "\<forall>i < length xs. \<exists>gi gj. f (xs ! i) gi = (Inr (ys' ! i), gj)"
    by simp_all
  show ?case
  proof (intro conjI allI impI)
    show "length ys = length (x # xs)" using len eq by simp
  next
    fix i assume "i < length (x # xs)"
    then show "\<exists>gi gj. f ((x # xs) ! i) gi = (Inr (ys ! i), gj)"
      using y nth eq by (cases i) auto
  qed
qed














lemma run_baseline_selection_serial_nth:
  assumes "fst (run_baseline_selection_serial self svd dat g) = Inr rs"
  shows "length rs = length dat \<and>
    (\<forall>i < length dat. \<exists>start. baseline_selection self svd start (dat ! i) = Inr (rs ! i))"
proof -
  from assms obtain g1 where "mapS (baseline_selection_call self svd) dat g = (Inr rs, g1)"
    by (cases "mapS (baseline_selection_call self svd) dat g")
       (simp add: run_baseline_selection_serial_def)
  from mapS_Inr_nth [OF this] have len: "length rs = length dat"
    and nth: "\<forall>i < length dat. \<exists>gi gj.
       baseline_selection_call self svd (dat ! i) gi = (Inr (rs ! i), gj)"
    by simp_all
  have "\<exists>start. baseline_selection self svd start (dat ! i) = Inr (rs ! i)"
    if "i < length dat" for i
  proof -
    from nth that obtain gi gj
      where "baseline_selection_call self svd (dat ! i) gi = (Inr (rs ! i), gj)"
      by blast
    then show ?thesis
      by (auto simp: baseline_selection_call_def split: if_splits prod.splits)
  qed
  with len show ?thesis by simp
qed

























subsection \<open>C9 and C10: the checks of \<open>fit\<close>\<close>

lemma fit_error_keeps_fitted:
  "fit self cov_dat reads_dat = (Some e, s') \<Longrightarrow> fitted s' = fitted self"
  by (auto simp: fit_def Let_def split: sum.splits list.splits if_splits)

lemma fit_success_fitted:
  "fit self cov_dat reads_dat = (None, s') \<Longrightarrow> fitted s'"
  by (auto simp: fit_def Let_def split: sum.splits list.splits if_splits)

lemma shape_at_error: "shape_at a k = Inl e \<Longrightarrow> e = IndexError"
  by (simp add: shape_at_def split: if_splits)

lemma fit_validation_fields:
  assumes "fit self cov_dat reads_dat = (Some e, s')"
    and "e = GeneCountMismatch \<or> e = NotAll2d \<or> e = DownsampleRateTooLarge"
  shows "n_genes s' = length cov_dat \<and> genes s' = map fst cov_dat \<and>
     cov_mats s' = map snd cov_dat \<and> x_counts s' = reads_dat \<and> x_adj s' = reads_dat \<and>
     use_baseline_selection s' = replicate (length cov_dat) True"
  using assms
  by (auto simp: fit_def Let_def split: sum.splits list.splits if_splits
      dest!: shape_at_error mapE_Inl)

text \<open>The stride check of \<open>fit\<close>, when the other checks pass: it raises exactly when
  the stride is strictly greater than the shortest transcript.\<close>

lemma mapE_shape_at:
  "list_all (\<lambda>z. ndim z = 2) as \<Longrightarrow>
     mapE (\<lambda>a. shape_at a 1) as = Inr (map (\<lambda>a. shape a ! 1) as)"
  by (induction as) (simp_all add: shape_at_def)

lemma fit_stride_error:
  assumes "cov_dat \<noteq> []" and "list_all (\<lambda>z. ndim z = 2) (map snd cov_dat)"
    and "length reads_dat = length cov_dat"
  shows "fst (fit self cov_dat reads_dat) = Some DownsampleRateTooLarge \<longleftrightarrow>
     1 < downsample_rate self \<and>
     Min (set (map (\<lambda>a. shape a ! 1) (map snd cov_dat))) < downsample_rate self"
proof -
  have p: "(case cov_dat of [] \<Rightarrow> Inl StopIteration | kv # _ \<Rightarrow> shape_at (snd kv) 0) =
      Inr (shape (snd (hd cov_dat)) ! 0)"
    using assms(1,2) by (cases cov_dat) (simp_all add: shape_at_def)
  have l: "mapE (\<lambda>a. shape_at a 1) (map snd cov_dat) = Inr (map (\<lambda>a. shape a ! 1) (map snd cov_dat))"
    by (rule mapE_shape_at [OF assms(2)])
  show ?thesis
    unfolding fit_def Let_def p
    by (simp add: l assms(2,3) not_le del: One_nat_def)
qed

lemma fit_stride5:
  "fit self_stride5 [(''g'', A2 F_len5)] [[1, 1]] =
   (None, self_stride5
        \<lparr> n_genes := 1, genes := [''g''], p_samples := 2,
          cov_mats := [A2 F_len5], x_counts := [[1, 1]], x_adj := [[1, 1]],
          use_baseline_selection := [True], Lis := [5],
          cov_sums := [[5, 5]], mem_splits := 1, fitted := True \<rparr>)"
  by (simp add: fit_def F_len5_def self_stride5_def init_def shape_at_def ndim_def shape_def
        nrows_def ncols_def Let_def nbytes_def row_sums_def)

text \<open>
  C9. Claim: with downsampling enabled, \<open>fit\<close> raises, before any parallel work, if and
  only if the stride is greater than or equal to some gene's transcript length; the
  comment in \<open>fit\<close> says the same ("Check that downsample rate < length(gene) for all
  genes"), and \<open>downsample_2d\<close> raises on \<open>downsample_rate >= Li\<close>. The test in \<open>fit\<close>
  is \<open>not np.min(self.Lis) >= self.downsample_rate\<close>, which lets a stride equal to a
  gene's length pass: with stride 5 and one gene of length 5, \<open>fit\<close> succeeds and sets
  \<open>fitted\<close>, and \<open>baseline_selection\<close> on a matrix of that gene raises in
  \<open>downsample_2d\<close>, whatever \<open>svds\<close> and the random draw are.
\<close>

theorem fit_admits_stride_equal_to_length:
  "downsample_rate self_stride5 = 5 \<and> ncols F_len5 = 5 \<and>
   fst (fit self_stride5 [(''g'', A2 F_len5)] [[1, 1]]) = None \<and>
   fitted (snd (fit self_stride5 [(''g'', A2 F_len5)] [[1, 1]])) \<and>
   Lis (snd (fit self_stride5 [(''g'', A2 F_len5)] [[1, 1]])) = [5] \<and>
   baseline_selection (snd (fit self_stride5 [(''g'', A2 F_len5)] [[1, 1]])) svd start F_len5 =
     Inl CannotDownsample"
  by (simp add: fit_stride5)
     (simp add: baseline_selection_def downsample_2d_def self_stride5_def init_def F_len5_def
        ncols_def)

lemma fit_first:
  "fit (init 0 3 1 1 7 1) [(''g'', A2 (F_trim 7))] [[1, 1]] =
     (None, (init 0 3 1 1 7 1)
        \<lparr> n_genes := 1, genes := [''g''], p_samples := 2,
          cov_mats := [A2 (F_trim 7)], x_counts := [[1, 1]], x_adj := [[1, 1]],
          use_baseline_selection := [True], Lis := [7],
          cov_sums := [[21 / 10, 28 / 10]], mem_splits := 1, fitted := True \<rparr>)"
  by (simp add: fit_def F_trim_7 init_def shape_at_def ndim_def shape_def
        nrows_def ncols_def Let_def nbytes_def row_sums_def)

lemma self_refit_simps:
  "nmf_iter self_refit = 1" "downsample_rate self_refit = 3" "n_jobs self_refit = 1"
  "mem_splits self_refit = 1" "degnorm_iter self_refit = 0" "fitted self_refit"
  "cov_sums self_refit = [[21 / 10, 28 / 10]]"
  by (simp_all add: self_refit_def fit_first init_simps)

lemma refit_fails:
  "fit self_refit [(''g'', A2 (F_trim 2))] [[1, 1]] = (Some DownsampleRateTooLarge, self_refit_failed)"
  by (simp add: fit_def F_trim_2 shape_at_def ndim_def shape_def self_refit_simps
        nrows_def ncols_def Let_def self_refit_failed_def)

lemma self_refit_failed_simps:
  "nmf_iter self_refit_failed = 1" "downsample_rate self_refit_failed = 3"
  "n_jobs self_refit_failed = 1"
  "mem_splits self_refit_failed = 1" "degnorm_iter self_refit_failed = 0"
  "fitted self_refit_failed"
  "cov_sums self_refit_failed = [[21 / 10, 28 / 10]]"
  "cov_mats self_refit_failed = [A2 (F_trim 2)]"
  "x_counts self_refit_failed = [[1, 1]]" "x_adj self_refit_failed = [[1, 1]]"
  "use_baseline_selection self_refit_failed = [True]"
  by (simp_all add: self_refit_failed_def self_refit_simps)

lemma nmf_refit: "nmf self_refit_failed svd_ex (F_trim 2) = Inr (F_trim 2)"
  by (simp add: nmf_def nmf_fit_def self_refit_failed_simps rank_one_approx_def svd_ex_def F_trim_2
        outer_def nmf_step_def mat_map2_def Let_def over_approx_def)

lemma par_apply_nmf_refit:
  "par_apply_nmf self_refit_failed svd_ex sched [F_trim 2] = Inr [F_trim 2]"
  by (simp add: par_apply_nmf_def self_refit_failed_simps Parallel_def split_into_chunks_def
        chunks_of.simps nmf_refit)

lemma update_round_refit:
  "update_round self_refit_failed [F_trim 2] [F_trim 2] =
     (None, self_refit_failed\<lparr> estimates := [F_trim 2], rho := [[0, 0]], scale_factors := [1, 1],
        cov_mats_adj := [F_trim 2], x_adj := [[1, 1]] \<rparr>)"
  by (simp add: update_round_def compute_scale_factors_def self_refit_failed_simps Let_def
        F_trim_2 row_sums_def di_scores_def clip_rho_def mat_map2_def col_sums_def ncols_def
        upt_rec np_median_def adjust_coverage_curves_def adjust_read_counts_def col_means_def)

lemma transform_refit:
  "transform self_refit_failed svd_ex scheds g =
     ((None, self_refit_failed\<lparr> estimates := [F_trim 2], rho := [[0, 0]], scale_factors := [1, 1],
        cov_mats_adj := [F_trim 2], x_adj := [[1, 1]], transformed := True \<rparr>), g)"
  by (simp add: transform_def self_refit_failed_simps as_matrix_def par_apply_nmf_refit
        update_round_refit)

lemma transform_unfitted:
  "\<not> fitted s \<Longrightarrow> transform s svd scheds g = ((Some NotFitted, s), g)"
  by (simp add: transform_def)

text \<open>
  C10 as claimed fails on an object that an earlier \<open>fit\<close> has fitted: \<open>fit\<close> never
  resets the flag, so after a second \<open>fit\<close> that raises (here on a gene shorter than the
  stride) the flag is still \<open>True\<close>, and \<open>transform\<close> runs to its end on the new
  coverage matrices and the coverage sums of the first \<open>fit\<close>.
\<close>

theorem failed_refit_stays_fitted:
  "fst (fit (init 0 3 1 1 7 1) [(''g'', A2 (F_trim 7))] [[1, 1]]) = None \<and>
   fst (fit self_refit [(''g'', A2 (F_trim 2))] [[1, 1]]) = Some DownsampleRateTooLarge \<and>
   fitted (snd (fit self_refit [(''g'', A2 (F_trim 2))] [[1, 1]])) \<and>
   fst (fst (transform (snd (fit self_refit [(''g'', A2 (F_trim 2))] [[1, 1]])) svd_ex
               (\<lambda>n. []) (\<lambda>k. 0))) = None \<and>
   transformed (snd (fst (transform (snd (fit self_refit [(''g'', A2 (F_trim 2))] [[1, 1]])) svd_ex
               (\<lambda>n. []) (\<lambda>k. 0))))"
  by (simp add: fit_first refit_fails transform_refit self_refit_failed_simps)

text \<open>
  C10, amended. Whenever \<open>fit\<close> raises, the flag \<open>fitted\<close> is what it was before the
  call; on an object whose flag was \<open>False\<close> before the call (as \<open>__init__\<close> leaves it)
  the flag remains \<open>False\<close>, and \<open>transform\<close> then raises and changes nothing, so every
  later call raises too. When the error is one of the three validation errors, \<open>fit\<close>
  has already stored the gene list, the coverage matrices and both copies of the read
  counts.
\<close>

theorem fit_failure_keeps_flag:
  assumes "fit self cov_dat reads_dat = (Some e, s')"
  shows "fitted s' = fitted self \<and>
    (\<not> fitted self \<longrightarrow>
       \<not> fitted s' \<and> transform s' svd scheds g = ((Some NotFitted, s'), g)) \<and>
    (e = GeneCountMismatch \<or> e = NotAll2d \<or> e = DownsampleRateTooLarge \<longrightarrow>
       n_genes s' = length cov_dat \<and> genes s' = map fst cov_dat \<and>
       cov_mats s' = map snd cov_dat \<and> x_counts s' = reads_dat \<and> x_adj s' = reads_dat \<and>
       use_baseline_selection s' = replicate (length cov_dat) True)"
  using fit_error_keeps_fitted [OF assms] fit_validation_fields [OF assms]
    transform_unfitted [of s' svd scheds g]
  by simp

lemma fit_gene_count_mismatch:
  "fst (fit self_default [(''g'', A2 F_len5)] [[1, 1], [2, 2]]) = Some GeneCountMismatch"
  by (simp add: fit_def F_len5_def self_default_def init_def shape_at_def ndim_def shape_def
        nrows_def ncols_def Let_def)

lemma fit_not_2d:
  "fst (fit self_default [(''g'', A3 [F_len5])] [[1, 1]]) = Some NotAll2d"
  by (simp add: fit_def F_len5_def self_default_def init_def shape_at_def ndim_def shape_def
        nrows_def ncols_def Let_def)

lemma fit_stride6:
  "fst (fit self_stride6 [(''g'', A2 F_len5)] [[1, 1]]) = Some DownsampleRateTooLarge"
  by (simp add: fit_def F_len5_def self_stride6_def init_def shape_at_def ndim_def shape_def
        nrows_def ncols_def Let_def)

theorem fit_failure_keeps_flag_witness:
  "fst (fit self_default [(''g'', A2 F_len5)] [[1, 1], [2, 2]]) = Some GeneCountMismatch \<and>
   \<not> fitted self_default \<and>
   \<not> fitted (snd (fit self_default [(''g'', A2 F_len5)] [[1, 1], [2, 2]])) \<and>
   transform (snd (fit self_default [(''g'', A2 F_len5)] [[1, 1], [2, 2]])) svd_ex (\<lambda>n. []) (\<lambda>k. 0) =
     ((Some NotFitted, snd (fit self_default [(''g'', A2 F_len5)] [[1, 1], [2, 2]])), \<lambda>k. 0) \<and>
   cov_mats (snd (fit self_default [(''g'', A2 F_len5)] [[1, 1], [2, 2]])) = [A2 F_len5] \<and>
   x_counts (snd (fit self_default [(''g'', A2 F_len5)] [[1, 1], [2, 2]])) = [[1, 1], [2, 2]] \<and>
   fst (fit self_default [(''g'', A3 [F_len5])] [[1, 1]]) = Some NotAll2d \<and>
   transform (snd (fit self_default [(''g'', A3 [F_len5])] [[1, 1]])) svd_ex (\<lambda>n. []) (\<lambda>k. 0) =
     ((Some NotFitted, snd (fit self_default [(''g'', A3 [F_len5])] [[1, 1]])), \<lambda>k. 0) \<and>
   fst (fit self_stride6 [(''g'', A2 F_len5)] [[1, 1]]) = Some DownsampleRateTooLarge \<and>
   transform (snd (fit self_stride6 [(''g'', A2 F_len5)] [[1, 1]])) svd_ex (\<lambda>n. []) (\<lambda>k. 0) =
     ((Some NotFitted, snd (fit self_stride6 [(''g'', A2 F_len5)] [[1, 1]])), \<lambda>k. 0)"
proof -
  have u: "\<not> fitted self_default" "\<not> fitted self_stride6"
    by (simp_all add: self_default_def self_stride6_def init_simps)
  have a: "fit self_default [(''g'', A2 F_len5)] [[1, 1], [2, 2]] =
      (Some GeneCountMismatch, snd (fit self_default [(''g'', A2 F_len5)] [[1, 1], [2, 2]]))"
    using fit_gene_count_mismatch by (metis prod.collapse)
  have b: "fit self_default [(''g'', A3 [F_len5])] [[1, 1]] =
      (Some NotAll2d, snd (fit self_default [(''g'', A3 [F_len5])] [[1, 1]]))"
    using fit_not_2d by (metis prod.collapse)
  have c: "fit self_stride6 [(''g'', A2 F_len5)] [[1, 1]] =
      (Some DownsampleRateTooLarge, snd (fit self_stride6 [(''g'', A2 F_len5)] [[1, 1]]))"
    using fit_stride6 by (metis prod.collapse)
  show ?thesis
    using u fit_gene_count_mismatch fit_not_2d fit_stride6
      fit_failure_keeps_flag [OF a, of svd_ex "\<lambda>n. []" "\<lambda>k. 0"]
      fit_failure_keeps_flag [OF b, of svd_ex "\<lambda>n. []" "\<lambda>k. 0"]
      fit_failure_keeps_flag [OF c, of svd_ex "\<lambda>n. []" "\<lambda>k. 0"]
    by simp
qed

subsection \<open>C3: the early exits of \<open>baseline_selection\<close>\<close>

lemma baseline_run_flag: "baseline_run self svd F hi = Inr (est, flag) \<Longrightarrow> flag"
  by (auto simp: baseline_run_def Let_def bindE_Inr_iff split: prod.splits)

lemma baseline_selection_unran:
  assumes "baseline_selection self svd start F = Inr (est, False)"
  shows "est = F"
  using assms
  by (auto simp: baseline_selection_def Let_def bindE_Inr_iff split: if_splits prod.splits
      dest: baseline_run_flag)

text \<open>
  C3 as claimed fails: \<open>F0\<close> has a sample row that sums to zero, and
  \<open>baseline_selection\<close> runs on it (flag \<open>True\<close>) and returns an estimate other than
  \<open>F0\<close>. No line of \<open>baseline_selection\<close> looks at row sums.
\<close>

theorem zero_row_runs_baseline_selection:
  "sum_list (F0 ! 1) = 0 \<and>
   baseline_selection self_ex svd_ex 0 F0 = Inr ([[3, 4], [3, 4]], True) \<and>
   [[3, 4], [3, 4]] \<noteq> F0"
  by (simp add: baseline_selection_F0) (simp add: F0_def)

text \<open>
  C3, amended. Without downsampling (\<open>downsample_rate <= 1\<close>), a matrix with fewer
  than \<open>min_high_coverage\<close> high-coverage positions is returned unchanged with flag
  \<open>False\<close>; with downsampling, a matrix with at most one sampled high-coverage position
  is. Conversely a result with flag \<open>False\<close> is always the input itself.
\<close>

theorem baseline_early_exit:
  "(\<not> 1 < downsample_rate self \<and> get_high_coverage_idx F = Inr hi \<and>
      length hi < min_high_coverage self \<longrightarrow>
        baseline_selection self svd start F = Inr (F, False)) \<and>
   (1 < downsample_rate self \<and> downsample_2d self start F False = Inr (D, idx) \<and>
      get_high_coverage_idx F = Inr hi \<and> length (intersect1d idx hi) \<le> 1 \<longrightarrow>
        baseline_selection self svd start F = Inr (F, False)) \<and>
   (baseline_selection self svd start F = Inr (est, False) \<longrightarrow> est = F)"
  using baseline_selection_unran [of self svd start F est]
  by (auto simp: baseline_selection_def Let_def)

lemma hi_F_peak: "get_high_coverage_idx F_peak = Inr [0]"
  by (simp add: get_high_coverage_idx_def F_peak_def ncols_def upt_rec)

lemma downsample_F_peak:
  "downsample_2d self_stride2 0 F_peak False = Inr ([[10, 0], [10, 0]], [0, 2])"
  by (simp add: downsample_2d_def self_stride2_def init_simps F_peak_def ncols_def
        systematic_sample_def arange_def upt_rec)

theorem baseline_early_exit_witness:
  "\<not> 1 < downsample_rate self_default \<and> get_high_coverage_idx F0 = Inr [0, 1] \<and>
   length [0, 1 :: nat] < min_high_coverage self_default \<and>
   baseline_selection self_default svd_ex 0 F0 = Inr (F0, False) \<and>
   1 < downsample_rate self_stride2 \<and>
   downsample_2d self_stride2 0 F_peak False = Inr ([[10, 0], [10, 0]], [0, 2]) \<and>
   get_high_coverage_idx F_peak = Inr [0] \<and> length (intersect1d [0, 2] [0]) \<le> 1 \<and>
   baseline_selection self_stride2 svd_ex 0 F_peak = Inr (F_peak, False)"
proof -
  have a: "\<not> 1 < downsample_rate self_default" "length [0, 1 :: nat] < min_high_coverage self_default"
    by (simp_all add: self_default_def init_simps)
  have b: "1 < downsample_rate self_stride2" "length (intersect1d [0, 2] [0]) \<le> 1"
    by (simp_all add: self_stride2_def init_simps intersect1d_def)
  show ?thesis
    using a b hi_F0 hi_F_peak downsample_F_peak
      baseline_early_exit [of self_default F0 "[0, 1]" svd_ex 0 "[]" "[]" F0]
      baseline_early_exit [of self_stride2 F_peak "[0]" svd_ex 0 "[[10, 0], [10, 0]]" "[0, 2]" F_peak]
    by simp
qed

subsection \<open>C6: read counts of genes that are not eligible\<close>

lemma adjust_read_counts_row:
  assumes "adjust_read_counts self = Inr s'" and "i < length (use_baseline_selection self)"
  shows "x_adj s' ! i =
     (if use_baseline_selection self ! i
      then map2 (\<lambda>c r. c / (1 - r)) (x_counts self ! i) (rho self ! i)
      else map2 (\<lambda>c a. c / (1 - a)) (x_counts self ! i) (col_means (rho self)))"
proof -
  from assms(1) have len: "length (use_baseline_selection self) \<le> length (x_adj self)"
    and s': "s' = self\<lparr> x_adj :=
        map (\<lambda>i. if i < length (use_baseline_selection self) then
                    (if use_baseline_selection self ! i
                     then map2 (\<lambda>c r. c / (1 - r)) (x_counts self ! i) (rho self ! i)
                     else map2 (\<lambda>c a. c / (1 - a)) (x_counts self ! i) (col_means (rho self)))
                  else x_adj self ! i)
            [0 ..< length (x_adj self)] \<rparr>"
    by (auto simp: adjust_read_counts_def Let_def split: if_splits)
  from len assms(2) have "i < length (x_adj self)" by simp
  then show ?thesis using assms(2) by (simp add: s')
qed

lemma col_means_nth:
  "j < ncols m \<Longrightarrow> col_means m ! j = sum_list (map (\<lambda>r. r ! j) m) / real (length m)"
  by (simp add: col_means_def col_sums_def)

lemma adjust_read_counts_ex:
  "adjust_read_counts self_counts = Inr (self_counts\<lparr> x_adj := [[2, 2], [10, 10]] \<rparr>)"
  by (simp add: adjust_read_counts_def self_counts_def col_means_def col_sums_def ncols_def
        Let_def upt_rec)

text \<open>
  C6 as claimed fails: with DI scores \<open>1/2\<close> for the eligible gene 0 and \<open>1/10\<close> for
  gene 1, the mean across the eligible genes is \<open>1/2\<close> and the claim gives gene 1 the
  counts \<open>7 / (1 - 1/2) = 14\<close>; the code gives \<open>7 / (1 - 3/10) = 10\<close>.
\<close>

theorem adjust_read_counts_not_eligible_mean:
  "adjust_read_counts self_counts = Inr (self_counts\<lparr> x_adj := [[2, 2], [10, 10]] \<rparr>) \<and>
   spec_eligible_mean_rho self_counts = [1 / 2, 1 / 2] \<and>
   map2 (\<lambda>c m. c / (1 - m)) (x_counts self_counts ! 1) (spec_eligible_mean_rho self_counts) =
     [14, 14] \<and>
   [10, 10] \<noteq> [14, 14 :: real]"
  by (simp add: adjust_read_counts_ex)
     (simp add: self_counts_def spec_eligible_mean_rho_def col_means_def col_sums_def ncols_def
        upt_rec)

text \<open>
  C6, amended. A gene that is not flagged baseline-eligible gets, for each sample,
  \<open>rawCount / (1 - m)\<close> where \<open>m\<close> is that sample's mean DI score over all genes
  (\<open>self.rho.mean(axis=0)\<close>), eligible or not; an eligible gene gets
  \<open>rawCount / (1 - rho)\<close> with its own scores.
\<close>

theorem adjust_read_counts_all_gene_mean:
  assumes "adjust_read_counts self = Inr s'" and "i < length (use_baseline_selection self)"
  shows "(\<not> use_baseline_selection self ! i \<longrightarrow>
            x_adj s' ! i = map2 (\<lambda>c a. c / (1 - a)) (x_counts self ! i) (col_means (rho self))) \<and>
         (use_baseline_selection self ! i \<longrightarrow>
            x_adj s' ! i = map2 (\<lambda>c r. c / (1 - r)) (x_counts self ! i) (rho self ! i)) \<and>
         (\<forall>j < ncols (rho self).
            col_means (rho self) ! j =
              sum_list (map (\<lambda>r. r ! j) (rho self)) / real (length (rho self)))"
  using adjust_read_counts_row [OF assms] col_means_nth [of _ "rho self"]
  by simp

theorem adjust_read_counts_all_gene_mean_witness:
  "adjust_read_counts self_counts = Inr (self_counts\<lparr> x_adj := [[2, 2], [10, 10]] \<rparr>) \<and>
   1 < length (use_baseline_selection self_counts) \<and>
   \<not> use_baseline_selection self_counts ! 1 \<and>
   col_means (rho self_counts) = [3 / 10, 3 / 10] \<and>
   x_adj (self_counts\<lparr> x_adj := [[2, 2], [10, 10]] \<rparr>) ! 1 =
     map2 (\<lambda>c a. c / (1 - a)) (x_counts self_counts ! 1) (col_means (rho self_counts))"
proof -
  have h: "1 < length (use_baseline_selection self_counts)"
    "\<not> use_baseline_selection self_counts ! 1"
    "col_means (rho self_counts) = [3 / 10, 3 / 10]"
    by (simp_all add: self_counts_def col_means_def col_sums_def ncols_def upt_rec)
  show ?thesis
    using h adjust_read_counts_ex
      adjust_read_counts_all_gene_mean [OF adjust_read_counts_ex h(1)]
    by simp
qed

subsection \<open>C1: the estimates dominate the input\<close>

lemma has_shape_mat_map2:
  "has_shape r c A \<Longrightarrow> has_shape r c B \<Longrightarrow> has_shape r c (mat_map2 f A B)"
  by (auto simp: has_shape_def mat_map2_def list_all_iff set_zip)

lemma has_shape_map_map: "has_shape r c A \<Longrightarrow> has_shape r c (map (map g) A)"
  by (auto simp: has_shape_def list_all_iff)

lemma has_shape_outer: "has_shape (length K) (length E) (outer K E)"
  by (auto simp: has_shape_def outer_def list_all_iff)

lemma is_matrix_has_shape: "is_matrix m \<longleftrightarrow> has_shape (length m) (ncols m) m"
  by (simp add: is_matrix_def has_shape_def)

lemma has_shape_dims:
  assumes "has_shape (length m) (ncols m) A"
  shows "nrows A = nrows m" and "ncols A = ncols m"
proof -
  show "nrows A = nrows m" using assms by (simp add: has_shape_def nrows_def)
  show "ncols A = ncols m"
  proof (cases A)
    case Nil
    with assms have "m = []" by (simp add: has_shape_def)
    with Nil show ?thesis by (simp add: ncols_def)
  next
    case (Cons a A')
    with assms show ?thesis by (simp add: has_shape_def ncols_def)
  qed
qed

lemma over_approx_ge:
  assumes "has_shape r c est" and "has_shape r c m"
  shows "mat_ge (over_approx est m) m"
proof -
  have len: "length est = length m" using assms by (simp add: has_shape_def)
  have rows: "length (est ! i) = length (m ! i)" if "i < length m" for i
    using assms that by (simp add: has_shape_def list_all_length)
  show ?thesis
    unfolding mat_ge_def over_approx_def mat_map2_def
    by (auto simp: list_all2_conv_all_nth len rows)
qed

lemma mat_ge_refl: "mat_ge F F"
  by (simp add: mat_ge_def list_all2_same)

lemma rank_one_approx_shape:
  assumes "svds_shapes svd" and "rank_one_approx svd A = Inr (K, E)"
    and "has_shape (length m) (ncols m) A"
  shows "length K = length m \<and> length E = ncols m"
proof -
  from assms(2) obtain u s v where uv: "svd A = Inr (u, s, v)" and K: "K = map (\<lambda>ui. ui * s) u"
    and E: "E = v"
    by (auto simp: rank_one_approx_def bindE_Inr_iff)
  from assms(1) uv have "length u = nrows A" "length v = ncols A"
    unfolding svds_shapes_def by blast+
  with has_shape_dims [OF assms(3)] K E show ?thesis
    by (simp add: nrows_def)
qed

lemma nmf_step_inv:
  assumes "svds_shapes svd" and "is_matrix m" and "nmf_inv m st"
    and "nmf_step svd m c st = Inr st'"
  shows "nmf_inv m st'"
proof -
  obtain K E est lmbda where st: "st = (K, E, est, lmbda)"
    by (cases st) auto
  let ?res = "mat_map2 (\<lambda>a b. a - b) est m"
  let ?l1 = "mat_map2 (\<lambda>l r. l - r * (1 / c)) lmbda ?res"
  let ?l2 = "map (map (\<lambda>l. if l < 0 then 0 else l)) ?l1"
  let ?A = "mat_map2 (\<lambda>a b. a + b) est ?l2"
  from assms(3) st have est: "est = outer K E" and lK: "length K = length m"
    and lE: "length E = ncols m" and sl: "has_shape (length m) (ncols m) lmbda"
    by (simp_all add: nmf_inv_def)
  have sm: "has_shape (length m) (ncols m) m"
    using assms(2) by (simp add: is_matrix_has_shape)
  have se: "has_shape (length m) (ncols m) est"
    using has_shape_outer [of K E] est lK lE by simp
  have s2: "has_shape (length m) (ncols m) ?l2"
    by (intro has_shape_map_map has_shape_mat_map2 sl se sm)
  have sA: "has_shape (length m) (ncols m) ?A"
    by (intro has_shape_mat_map2 se s2)
  from assms(4) st obtain K' E' where r: "rank_one_approx svd ?A = Inr (K', E')"
    and st': "st' = (K', E', outer K' E', ?l2)"
    by (auto simp: nmf_step_def Let_def bindE_Inr_iff)
  from rank_one_approx_shape [OF assms(1) r sA] s2 st' show ?thesis
    by (simp add: nmf_inv_def)
qed

lemma nmf_iterate_inv:
  assumes "svds_shapes svd" and "is_matrix m"
  shows "nmf_inv m st \<Longrightarrow> nmf_iterate svd m c n st = Inr st' \<Longrightarrow> nmf_inv m st'"
proof (induction n arbitrary: st)
  case 0
  then show ?case by simp
next
  case (Suc n)
  from Suc.prems(2) obtain st1 where a: "nmf_step svd m c st = Inr st1"
    and b: "nmf_iterate svd m c n st1 = Inr st'"
    by (auto simp: bindE_Inr_iff)
  from nmf_step_inv [OF assms Suc.prems(1) a] have "nmf_inv m st1" .
  from Suc.IH [OF this b] show ?case .
qed

lemma nmf_fit_inv:
  assumes "svds_shapes svd" and "is_matrix m" and "nmf_fit self svd m = Inr st"
  shows "nmf_inv m st"
proof -
  from assms(3) obtain K E where r: "rank_one_approx svd m = Inr (K, E)"
    and it: "nmf_iterate svd m (sqrt (real (nmf_iter self))) (nmf_iter self)
         (K, E, outer K E, map (map (\<lambda>_. 0)) m) = Inr st"
    by (auto simp: nmf_fit_def bindE_Inr_iff)
  have sm: "has_shape (length m) (ncols m) m"
    using assms(2) by (simp add: is_matrix_has_shape)
  have "nmf_inv m (K, E, outer K E, map (map (\<lambda>_. 0)) m)"
    using rank_one_approx_shape [OF assms(1) r sm] has_shape_map_map [OF sm]
    by (simp add: nmf_inv_def)
  from nmf_iterate_inv [OF assms(1,2) this it] show ?thesis .
qed

lemma nmf_ge:
  assumes "svds_shapes svd" and "is_matrix m" and "nmf self svd m = Inr est"
  shows "mat_ge est m"
proof -
  from assms(3) obtain K E est0 lmbda where f: "nmf_fit self svd m = Inr (K, E, est0, lmbda)"
    and est: "est = over_approx est0 m"
    by (auto simp: nmf_def bindE_Inr_iff)
  from nmf_fit_inv [OF assms(1,2) f] have "has_shape (length m) (ncols m) est0"
    using has_shape_outer [of K E] by (simp add: nmf_inv_def)
  moreover have "has_shape (length m) (ncols m) m"
    using assms(2) by (simp add: is_matrix_has_shape)
  ultimately show ?thesis
    unfolding est by (rule over_approx_ge)
qed

lemma nmf_factors_length:
  assumes "svds_shapes svd" and "is_matrix m" and "nmf_factors self svd m = Inr (K, E)"
  shows "length K = length m"
proof -
  from assms(3) obtain K0 E0 est0 lmbda where f: "nmf_fit self svd m = Inr (K0, E0, est0, lmbda)"
    and K: "K = map abs K0"
    by (auto simp: nmf_factors_def bindE_Inr_iff)
  from nmf_fit_inv [OF assms(1,2) f] K show ?thesis
    by (simp add: nmf_inv_def)
qed

lemma select_cols_matrix:
  assumes "select_cols M idx = Inr M'"
  shows "is_matrix M' \<and> length M' = length M"
proof -
  from assms obtain js where "M' = map (\<lambda>r. map (\<lambda>j. r ! j) js) M"
    by (auto simp: select_cols_def bindE_Inr_iff)
  then show ?thesis
    by (cases M) (simp_all add: is_matrix_def ncols_def list_all_iff)
qed

lemma bs_body_F_bin:
  assumes "bs_body self svd st = Inr st'"
  shows "is_matrix (F_bin st') \<and> length (F_bin st') = length (F_bin st)"
proof -
  from assms obtain idx where "select_cols (F_bin st) idx = Inr (F_bin st')"
    by (auto simp: bs_body_def Let_def bindE_Inr_iff)
  then show ?thesis by (rule select_cols_matrix)
qed

lemma bs_loop_F_bin:
  "bs_loop self svd st = Inr st' \<Longrightarrow> is_matrix (F_bin st) \<Longrightarrow>
     is_matrix (F_bin st') \<and> length (F_bin st') = length (F_bin st)"
proof (induction self svd st rule: bs_loop.induct)
  case (1 self svd st)
  show ?case
  proof (cases "n_bins st > min_bins self")
    case False
    with "1.prems" show ?thesis by (simp add: bs_loop.simps [of self svd st])
  next
    case True
    note nb = this
    from "1.prems"(1) True obtain mx where mx: "np_max (rho_vec st) = Inr mx"
      by (subst (asm) bs_loop.simps) (auto split: sum.splits)
    show ?thesis
    proof (cases "mx > 0.1")
      case False
      with "1.prems" nb mx show ?thesis by (simp add: bs_loop.simps [of self svd st])
    next
      case True
      with "1.prems"(1) nb mx obtain st1 where b: "bs_body self svd st = Inr st1"
        and l: "bs_loop self svd st1 = Inr st'"
        by (subst (asm) bs_loop.simps) (auto split: sum.splits)
      from bs_body_F_bin [OF b] have m1: "is_matrix (F_bin st1)"
        and l1: "length (F_bin st1) = length (F_bin st)" by simp_all
      from "1.IH" [OF nb mx True b l m1] l1 show ?thesis by simp
    qed
  qed
qed

lemma baseline_run_ge:
  assumes "svds_shapes svd" and "is_matrix F" and "baseline_run self svd F hi = Inr (est, flag)"
  shows "mat_ge est F"
proof -
  let ?Fs = "map (\<lambda>r. map (\<lambda>j. r ! j) (sort hi)) F"
  have ms: "is_matrix ?Fs" and ls: "length ?Fs = length F"
    by (cases F; simp add: is_matrix_def ncols_def list_all_iff)+
  from assms(3) obtain K E st and mx :: real and K1 E1 K2 where
    f0: "nmf_factors self svd ?Fs = Inr (K, E)"
    and lp: "bs_loop self svd (bs_init self ?Fs K E) = Inr st"
    and k1: "(if mx < 0.1 then nmf_factors self svd (F_bin st) else Inr (K, E)) = Inr (K1, E1)"
    and fl: "floor_K K1 = Inr K2"
    and est: "est = over_approx (mat_abs (outer K2 (refine_E F K2))) F"
    by (auto simp: baseline_run_def Let_def bindE_Inr_iff split: prod.splits)
  have fb: "F_bin (bs_init self ?Fs K E) = ?Fs"
    by (simp add: bs_init_def Let_def)
  from bs_loop_F_bin [OF lp] ms fb have mst: "is_matrix (F_bin st)"
    and lst: "length (F_bin st) = length F" using ls by simp_all
  have "length K1 = length F"
  proof (cases "mx < 0.1")
    case True
    with k1 have "nmf_factors self svd (F_bin st) = Inr (K1, E1)" by simp
    from nmf_factors_length [OF assms(1) mst this] lst show ?thesis by simp
  next
    case False
    with k1 have "K1 = K" by simp
    with nmf_factors_length [OF assms(1) ms f0] ls show ?thesis by simp
  qed
  moreover have "length K2 = length K1"
    using fl by (auto simp: floor_K_def Let_def split: if_splits)
  ultimately have lK2: "length K2 = length F" by simp
  have "has_shape (length F) (ncols F) (outer K2 (refine_E F K2))"
    using has_shape_outer [of K2 "refine_E F K2"] lK2 by (simp add: refine_E_def)
  then have "has_shape (length F) (ncols F) (mat_abs (outer K2 (refine_E F K2)))"
    unfolding mat_abs_def by (rule has_shape_map_map)
  moreover have "has_shape (length F) (ncols F) F"
    using assms(2) by (simp add: is_matrix_has_shape)
  ultimately show ?thesis
    unfolding est by (rule over_approx_ge)
qed

lemma baseline_selection_ge:
  assumes "svds_shapes svd" and "is_matrix F"
    and "baseline_selection self svd start F = Inr (est, flag)"
  shows "mat_ge est F"
  using assms(3) baseline_run_ge [OF assms(1,2)] mat_ge_refl [of F]
  by (auto simp: baseline_selection_def Let_def bindE_Inr_iff split: if_splits prod.splits)

lemma mat_ge_nth:
  "mat_ge A B \<Longrightarrow> i < length B \<Longrightarrow> j < length (B ! i) \<Longrightarrow> B ! i ! j \<le> A ! i ! j"
  by (simp add: mat_ge_def list_all2_conv_all_nth)

lemma svd_ex_shapes: "svds_shapes svd_ex"
  unfolding svds_shapes_def svd_ex_def
  by (auto simp: nrows_def ncols_def Let_def split: if_splits list.splits)

text \<open>
  C1. Let \<open>svds\<close> return factors of the shapes its contract promises, and let the input
  be a (rectangular) matrix. Then the matrix \<open>nmf(x)\<close> returns has the shape of \<open>x\<close>
  and is at least \<open>x\<close> at every entry, and the estimate \<open>baseline_selection(F)\<close> returns
  has the shape of \<open>F\<close> and is at least \<open>F\<close> at every entry. Non-negativity of the
  input is not needed.
\<close>

theorem estimates_dominate_input:
  assumes "svds_shapes svd" and "is_matrix F"
  shows "(\<forall>est. nmf self svd F = Inr est \<longrightarrow>
            mat_ge est F \<and>
            (\<forall>i < length F. \<forall>j < length (F ! i). F ! i ! j \<le> est ! i ! j)) \<and>
         (\<forall>est flag. baseline_selection self svd start F = Inr (est, flag) \<longrightarrow>
            mat_ge est F \<and>
            (\<forall>i < length F. \<forall>j < length (F ! i). F ! i ! j \<le> est ! i ! j))"
  using nmf_ge [OF assms] baseline_selection_ge [OF assms] mat_ge_nth
  by blast

theorem estimates_dominate_input_witness:
  "svds_shapes svd_ex \<and> is_matrix F0 \<and>
   nmf self_ex svd_ex F0 = Inr F0 \<and> mat_ge F0 F0 \<and>
   baseline_selection self_ex svd_ex 0 F0 = Inr ([[3, 4], [3, 4]], True) \<and>
   mat_ge [[3, 4], [3, 4]] F0"
proof -
  have m: "is_matrix F0"
    by (simp add: is_matrix_def F0_def ncols_def)
  note t = estimates_dominate_input [OF svd_ex_shapes m, of self_ex 0]
  from t nmf_F0 have a: "mat_ge F0 F0" by blast
  from t baseline_selection_F0 have b: "mat_ge [[3, 4], [3, 4]] F0" by blast
  from svd_ex_shapes m nmf_F0 a baseline_selection_F0 b show ?thesis
    by blast
qed

subsection \<open>C4: the run of the trimming loop on seven bins\<close>

lemma self_trim_simps:
  "nmf_iter self_trim = 1" "bins self_trim = 7" "min_high_coverage self_trim = 1"
  "downsample_rate self_trim = 1" "min_bins self_trim = 3"
  by (simp_all add: self_trim_def init_simps)

lemma nmf_F_trim_2: "nmf self_trim svd_ex (F_trim 2) = Inr (F_trim 2)"
  by (simp add: nmf_def nmf_fit_def self_trim_simps rank_one_approx_def svd_ex_def F_trim_2
        outer_def nmf_step_def mat_map2_def Let_def over_approx_def)

lemma nmf_F_trim_3: "nmf self_trim svd_ex (F_trim 3) = Inr (F_trim 3)"
  by (simp add: nmf_def nmf_fit_def self_trim_simps rank_one_approx_def svd_ex_def F_trim_3
        outer_def nmf_step_def mat_map2_def Let_def over_approx_def)

lemma nmf_F_trim_4: "nmf self_trim svd_ex (F_trim 4) = Inr (F_trim 4)"
  by (simp add: nmf_def nmf_fit_def self_trim_simps rank_one_approx_def svd_ex_def F_trim_4
        outer_def nmf_step_def mat_map2_def Let_def over_approx_def)

lemma nmf_F_trim_5: "nmf self_trim svd_ex (F_trim 5) = Inr (F_trim 5)"
  by (simp add: nmf_def nmf_fit_def self_trim_simps rank_one_approx_def svd_ex_def F_trim_5
        outer_def nmf_step_def mat_map2_def Let_def over_approx_def)

lemma nmf_F_trim_6: "nmf self_trim svd_ex (F_trim 6) = Inr (F_trim 6)"
  by (simp add: nmf_def nmf_fit_def self_trim_simps rank_one_approx_def svd_ex_def F_trim_6
        outer_def nmf_step_def mat_map2_def Let_def over_approx_def)

lemma trim_step_7:
  "bs_body self_trim svd_ex
     \<lparr> n_bins = nb, bin_segs = [[0], [1], [2], [3], [4], [5], [6]], F_bin = F_trim 7, KE_bin = F_trim 7,
       rho_vec = [10 / 31, 5 / 19] \<rparr> =
   Inr \<lparr> n_bins = 7, bin_segs = [[0], [1], [2], [3], [4], [5]], F_bin = F_trim 6, KE_bin = F_trim 6,
       rho_vec = [5 / 14, 5 / 17] \<rparr>"
proof -
  have sel: "select_cols (F_trim 7) [1, 2, 3, 4, 5, 6] = Inr (F_trim 6)"
    by (simp add: select_cols_def col_index_def F_trim_7 F_trim_6 ncols_def)
  have uq: "np_unique (flatten_2d [[1], [2], [3], [4], [5], [6]]) = [1, 2, 3, 4, 5, 6]"
    by (simp add: np_unique_def flatten_2d_def)
  have sh: "shift_bins [[1], [2], [3], [4], [5], [6]] 0 = Inr [[0], [1], [2], [3], [4], [5]]"
    by (simp add: shift_bins_def bin_at_def first_of_def shift_from_def)
  have rh: "di_scores (row_sums (F_trim 6)) (row_sums (F_trim 6)) = [5 / 14, 5 / 17]"
    by (simp add: di_scores_def row_sums_def F_trim_6 clip_rho_def eps_def)
  have norms: "mapE (\<lambda>seg.
        bindE (select_cols (mat_map2 (\<lambda>a b. a - b) (F_trim 7) (F_trim 7)) seg) (\<lambda>r.
        bindE (select_cols (F_trim 7) seg) (\<lambda>f. Inr (fro_norm r, fro_norm f))))
      [[0], [1], [2], [3], [4], [5], [6]] = Inr [(0, 1 / 2), (0, 1 / 2), (0, 1 / 2), (0, 1 / 2), (0, 1 / 2), (0, 1 / 2), (0, 1 / 2)]"
    by (simp add: select_cols_def col_index_def F_trim_7 mat_map2_def ncols_def fro_norm_def
          real_sqrt_divide)
  have am: "nanargmax (map (\<lambda>(ss_r, ss_f). if ss_f = 0 then 0 else ss_r / ss_f)
      [(0, 1 / 2), (0, 1 / 2), (0, 1 / 2), (0, 1 / 2), (0, 1 / 2), (0, 1 / 2), (0, 1 / 2 :: real)]) = Inr 0"
    by (simp add: nanargmax_def)
  have dl: "del_at [[0], [1], [2], [3], [4], [5], [6] :: int list] 0 = Inr [[1], [2], [3], [4], [5], [6]]"
    by (simp add: del_at_def)
  show ?thesis
    unfolding bs_body_def Let_def
    by (simp only: bs_state.simps norms bindE_simps am dl uq sh sel nmf_F_trim_6 rh list.size)
      simp
qed

lemma trim_step_6:
  "bs_body self_trim svd_ex
     \<lparr> n_bins = nb, bin_segs = [[0], [1], [2], [3], [4], [5]], F_bin = F_trim 6, KE_bin = F_trim 6,
       rho_vec = [5 / 14, 5 / 17] \<rparr> =
   Inr \<lparr> n_bins = 6, bin_segs = [[0], [1], [2], [3], [4]], F_bin = F_trim 5, KE_bin = F_trim 5,
       rho_vec = [2 / 5, 1 / 3] \<rparr>"
proof -
  have sel: "select_cols (F_trim 6) [1, 2, 3, 4, 5] = Inr (F_trim 5)"
    by (simp add: select_cols_def col_index_def F_trim_6 F_trim_5 ncols_def)
  have uq: "np_unique (flatten_2d [[1], [2], [3], [4], [5]]) = [1, 2, 3, 4, 5]"
    by (simp add: np_unique_def flatten_2d_def)
  have sh: "shift_bins [[1], [2], [3], [4], [5]] 0 = Inr [[0], [1], [2], [3], [4]]"
    by (simp add: shift_bins_def bin_at_def first_of_def shift_from_def)
  have rh: "di_scores (row_sums (F_trim 5)) (row_sums (F_trim 5)) = [2 / 5, 1 / 3]"
    by (simp add: di_scores_def row_sums_def F_trim_5 clip_rho_def eps_def)
  have norms: "mapE (\<lambda>seg.
        bindE (select_cols (mat_map2 (\<lambda>a b. a - b) (F_trim 6) (F_trim 6)) seg) (\<lambda>r.
        bindE (select_cols (F_trim 6) seg) (\<lambda>f. Inr (fro_norm r, fro_norm f))))
      [[0], [1], [2], [3], [4], [5]] = Inr [(0, 1 / 2), (0, 1 / 2), (0, 1 / 2), (0, 1 / 2), (0, 1 / 2), (0, 1 / 2)]"
    by (simp add: select_cols_def col_index_def F_trim_6 mat_map2_def ncols_def fro_norm_def
          real_sqrt_divide)
  have am: "nanargmax (map (\<lambda>(ss_r, ss_f). if ss_f = 0 then 0 else ss_r / ss_f)
      [(0, 1 / 2), (0, 1 / 2), (0, 1 / 2), (0, 1 / 2), (0, 1 / 2), (0, 1 / 2 :: real)]) = Inr 0"
    by (simp add: nanargmax_def)
  have dl: "del_at [[0], [1], [2], [3], [4], [5] :: int list] 0 = Inr [[1], [2], [3], [4], [5]]"
    by (simp add: del_at_def)
  show ?thesis
    unfolding bs_body_def Let_def
    by (simp only: bs_state.simps norms bindE_simps am dl uq sh sel nmf_F_trim_5 rh list.size)
      simp
qed

lemma trim_step_5:
  "bs_body self_trim svd_ex
     \<lparr> n_bins = nb, bin_segs = [[0], [1], [2], [3], [4]], F_bin = F_trim 5, KE_bin = F_trim 5,
       rho_vec = [2 / 5, 1 / 3] \<rparr> =
   Inr \<lparr> n_bins = 5, bin_segs = [[0], [1], [2], [3]], F_bin = F_trim 4, KE_bin = F_trim 4,
       rho_vec = [5 / 11, 5 / 13] \<rparr>"
proof -
  have sel: "select_cols (F_trim 5) [1, 2, 3, 4] = Inr (F_trim 4)"
    by (simp add: select_cols_def col_index_def F_trim_5 F_trim_4 ncols_def)
  have uq: "np_unique (flatten_2d [[1], [2], [3], [4]]) = [1, 2, 3, 4]"
    by (simp add: np_unique_def flatten_2d_def)
  have sh: "shift_bins [[1], [2], [3], [4]] 0 = Inr [[0], [1], [2], [3]]"
    by (simp add: shift_bins_def bin_at_def first_of_def shift_from_def)
  have rh: "di_scores (row_sums (F_trim 4)) (row_sums (F_trim 4)) = [5 / 11, 5 / 13]"
    by (simp add: di_scores_def row_sums_def F_trim_4 clip_rho_def eps_def)
  have norms: "mapE (\<lambda>seg.
        bindE (select_cols (mat_map2 (\<lambda>a b. a - b) (F_trim 5) (F_trim 5)) seg) (\<lambda>r.
        bindE (select_cols (F_trim 5) seg) (\<lambda>f. Inr (fro_norm r, fro_norm f))))
      [[0], [1], [2], [3], [4]] = Inr [(0, 1 / 2), (0, 1 / 2), (0, 1 / 2), (0, 1 / 2), (0, 1 / 2)]"
    by (simp add: select_cols_def col_index_def F_trim_5 mat_map2_def ncols_def fro_norm_def
          real_sqrt_divide)
  have am: "nanargmax (map (\<lambda>(ss_r, ss_f). if ss_f = 0 then 0 else ss_r / ss_f)
      [(0, 1 / 2), (0, 1 / 2), (0, 1 / 2), (0, 1 / 2), (0, 1 / 2 :: real)]) = Inr 0"
    by (simp add: nanargmax_def)
  have dl: "del_at [[0], [1], [2], [3], [4] :: int list] 0 = Inr [[1], [2], [3], [4]]"
    by (simp add: del_at_def)
  show ?thesis
    unfolding bs_body_def Let_def
    by (simp only: bs_state.simps norms bindE_simps am dl uq sh sel nmf_F_trim_4 rh list.size)
      simp
qed

lemma trim_step_4:
  "bs_body self_trim svd_ex
     \<lparr> n_bins = nb, bin_segs = [[0], [1], [2], [3]], F_bin = F_trim 4, KE_bin = F_trim 4,
       rho_vec = [5 / 11, 5 / 13] \<rparr> =
   Inr \<lparr> n_bins = 4, bin_segs = [[0], [1], [2]], F_bin = F_trim 3, KE_bin = F_trim 3,
       rho_vec = [10 / 19, 5 / 11] \<rparr>"
proof -
  have sel: "select_cols (F_trim 4) [1, 2, 3] = Inr (F_trim 3)"
    by (simp add: select_cols_def col_index_def F_trim_4 F_trim_3 ncols_def)
  have uq: "np_unique (flatten_2d [[1], [2], [3]]) = [1, 2, 3]"
    by (simp add: np_unique_def flatten_2d_def)
  have sh: "shift_bins [[1], [2], [3]] 0 = Inr [[0], [1], [2]]"
    by (simp add: shift_bins_def bin_at_def first_of_def shift_from_def)
  have rh: "di_scores (row_sums (F_trim 3)) (row_sums (F_trim 3)) = [10 / 19, 5 / 11]"
    by (simp add: di_scores_def row_sums_def F_trim_3 clip_rho_def eps_def)
  have norms: "mapE (\<lambda>seg.
        bindE (select_cols (mat_map2 (\<lambda>a b. a - b) (F_trim 4) (F_trim 4)) seg) (\<lambda>r.
        bindE (select_cols (F_trim 4) seg) (\<lambda>f. Inr (fro_norm r, fro_norm f))))
      [[0], [1], [2], [3]] = Inr [(0, 1 / 2), (0, 1 / 2), (0, 1 / 2), (0, 1 / 2)]"
    by (simp add: select_cols_def col_index_def F_trim_4 mat_map2_def ncols_def fro_norm_def
          real_sqrt_divide)
  have am: "nanargmax (map (\<lambda>(ss_r, ss_f). if ss_f = 0 then 0 else ss_r / ss_f)
      [(0, 1 / 2), (0, 1 / 2), (0, 1 / 2), (0, 1 / 2 :: real)]) = Inr 0"
    by (simp add: nanargmax_def)
  have dl: "del_at [[0], [1], [2], [3] :: int list] 0 = Inr [[1], [2], [3]]"
    by (simp add: del_at_def)
  show ?thesis
    unfolding bs_body_def Let_def
    by (simp only: bs_state.simps norms bindE_simps am dl uq sh sel nmf_F_trim_3 rh list.size)
      simp
qed

lemma trim_step_3:
  "bs_body self_trim svd_ex
     \<lparr> n_bins = nb, bin_segs = [[0], [1], [2]], F_bin = F_trim 3, KE_bin = F_trim 3,
       rho_vec = [10 / 19, 5 / 11] \<rparr> =
   Inr \<lparr> n_bins = 3, bin_segs = [[0], [1]], F_bin = F_trim 2, KE_bin = F_trim 2,
       rho_vec = [5 / 8, 5 / 9] \<rparr>"
proof -
  have sel: "select_cols (F_trim 3) [1, 2] = Inr (F_trim 2)"
    by (simp add: select_cols_def col_index_def F_trim_3 F_trim_2 ncols_def)
  have uq: "np_unique (flatten_2d [[1], [2]]) = [1, 2]"
    by (simp add: np_unique_def flatten_2d_def)
  have sh: "shift_bins [[1], [2]] 0 = Inr [[0], [1]]"
    by (simp add: shift_bins_def bin_at_def first_of_def shift_from_def)
  have rh: "di_scores (row_sums (F_trim 2)) (row_sums (F_trim 2)) = [5 / 8, 5 / 9]"
    by (simp add: di_scores_def row_sums_def F_trim_2 clip_rho_def eps_def)
  have norms: "mapE (\<lambda>seg.
        bindE (select_cols (mat_map2 (\<lambda>a b. a - b) (F_trim 3) (F_trim 3)) seg) (\<lambda>r.
        bindE (select_cols (F_trim 3) seg) (\<lambda>f. Inr (fro_norm r, fro_norm f))))
      [[0], [1], [2]] = Inr [(0, 1 / 2), (0, 1 / 2), (0, 1 / 2)]"
    by (simp add: select_cols_def col_index_def F_trim_3 mat_map2_def ncols_def fro_norm_def
          real_sqrt_divide)
  have am: "nanargmax (map (\<lambda>(ss_r, ss_f). if ss_f = 0 then 0 else ss_r / ss_f)
      [(0, 1 / 2), (0, 1 / 2), (0, 1 / 2 :: real)]) = Inr 0"
    by (simp add: nanargmax_def)
  have dl: "del_at [[0], [1], [2] :: int list] 0 = Inr [[1], [2]]"
    by (simp add: del_at_def)
  show ?thesis
    unfolding bs_body_def Let_def
    by (simp only: bs_state.simps norms bindE_simps am dl uq sh sel nmf_F_trim_2 rh list.size)
      simp
qed

lemma nmf_factors_trim: "nmf_factors self_trim svd_ex (F_trim 7) = Inr (K_trim, E_trim)"
  by (simp add: nmf_factors_def nmf_fit_def self_trim_simps rank_one_approx_def svd_ex_def F_trim_7
        outer_def nmf_step_def mat_map2_def Let_def K_trim_def E_trim_def)

lemma bs_init_trim:
  "bs_init self_trim (F_trim 7) K_trim E_trim =
     \<lparr> n_bins = 7, bin_segs = [[0], [1], [2], [3], [4], [5], [6]], F_bin = F_trim 7, KE_bin = F_trim 7,
       rho_vec = [10 / 31, 5 / 19] \<rparr>"
  by (simp add: bs_init_def self_trim_simps F_trim_7 [symmetric])
     (simp add: F_trim_7 K_trim_def E_trim_def ncols_def upt_rec split_into_chunks_def
        chunks_of.simps mat_abs_def outer_def di_scores_def row_sums_def clip_rho_def Let_def)

lemma np_max_2: "np_max [a, b] = Inr (max a b)"
  by (simp add: np_max_def max.commute)

lemma trim_loop:
  "bs_loop self_trim svd_ex
     \<lparr> n_bins = 7, bin_segs = [[0], [1], [2], [3], [4], [5], [6]], F_bin = F_trim 7, KE_bin = F_trim 7,
       rho_vec = [10 / 31, 5 / 19] \<rparr> =
   Inr \<lparr> n_bins = 3, bin_segs = [[0], [1]], F_bin = F_trim 2, KE_bin = F_trim 2,
       rho_vec = [5 / 8, 5 / 9] \<rparr>"
  apply (subst bs_loop.simps, simp add: self_trim_simps np_max_2 trim_step_7)
  apply (subst bs_loop.simps, simp add: self_trim_simps np_max_2 trim_step_6)
  apply (subst bs_loop.simps, simp add: self_trim_simps np_max_2 trim_step_5)
  apply (subst bs_loop.simps, simp add: self_trim_simps np_max_2 trim_step_4)
  apply (subst bs_loop.simps, simp add: self_trim_simps np_max_2 trim_step_3)
  apply (subst bs_loop.simps, simp add: self_trim_simps)
  done

lemma floor_K_trim: "floor_K K_trim = Inr K_trim"
proof -
  have s: "1 \<le> sqrt 7" by simp
  have a: "eps \<le> 3 / 5 * (sqrt 7 / 2)"
    unfolding eps_def using s by linarith
  have b: "eps \<le> 4 / 5 * (sqrt 7 / 2)"
    unfolding eps_def using s by linarith
  have "filter (\<lambda>k. eps \<le> k) K_trim = K_trim"
    using a b by (simp add: K_trim_def)
  moreover have "map (\<lambda>k. if k < eps then minl K_trim else k) K_trim = K_trim"
    using a b by (simp add: K_trim_def)
  moreover have "K_trim \<noteq> []"
    by (simp add: K_trim_def)
  ultimately show ?thesis
    by (simp add: floor_K_def Let_def)
qed

lemma refine_E_trim: "refine_E (F_trim 7) K_trim = E_trim"
  by (simp add: refine_E_def F_trim_7 K_trim_def E_trim_def ncols_def upt_rec)

lemma hi_F_trim: "get_high_coverage_idx (F_trim 7) = Inr [0, 1, 2, 3, 4, 5, 6]"
  by (simp add: get_high_coverage_idx_def F_trim_7 ncols_def upt_rec)

lemma baseline_run_trim:
  "baseline_run self_trim svd_ex (F_trim 7) [0, 1, 2, 3, 4, 5, 6] = Inr (F_trim 7, True)"
proof -
  have sel: "map (\<lambda>r. map (\<lambda>j. r ! j) (sort [0, 1, 2, 3, 4, 5, 6 :: nat])) (F_trim 7) = F_trim 7"
    by (simp add: F_trim_7)
  have mx: "np_max [5 / 8, 5 / 9] = Inr (5 / 8)"
    by (simp add: np_max_def)
  have big: "\<not> (5 / 8 :: real) < 0.1"
    by simp
  have fin: "over_approx (mat_abs (outer K_trim E_trim)) (F_trim 7) = F_trim 7"
    by (simp add: F_trim_7 K_trim_def E_trim_def outer_def mat_abs_def over_approx_def
          mat_map2_def)
  show ?thesis
    unfolding baseline_run_def Let_def sel
    by (simp only: nmf_factors_trim bindE_simps prod.case bs_init_trim trim_loop mx big if_False
          floor_K_trim refine_E_trim fin bs_state.simps)
qed

text \<open>
  C4. Claim: a bin is dropped only while more than \<open>min_bins\<close> bins remain, so at least
  \<open>min_bins = ceil(0.3 * bins)\<close> bins survive. The loop tests \<open>n_bins > self.min_bins\<close>,
  but \<open>n_bins\<close> is refreshed at the top of the body, before the deletion: from the
  second pass on the test reads the number of bins before the previous deletion. With
  \<open>bins = 7\<close> (\<open>min_bins = 3\<close>) and DI scores that stay above \<open>0.1\<close>, the loop starts
  from seven bins, still drops a bin when exactly three are left, and ends with two;
  \<open>baseline_selection\<close> then returns normally.
\<close>

theorem trimming_ends_below_min_bins:
  "min_bins self_trim = 3 \<and>
   get_high_coverage_idx (F_trim 7) = Inr [0, 1, 2, 3, 4, 5, 6] \<and>
   nmf_factors self_trim svd_ex (F_trim 7) = Inr (K_trim, E_trim) \<and>
   length (bin_segs (bs_init self_trim (F_trim 7) K_trim E_trim)) = 7 \<and>
   bs_body self_trim svd_ex
     \<lparr> n_bins = 4, bin_segs = [[0], [1], [2]], F_bin = F_trim 3, KE_bin = F_trim 3,
       rho_vec = [10 / 19, 5 / 11] \<rparr> =
   Inr \<lparr> n_bins = 3, bin_segs = [[0], [1]], F_bin = F_trim 2, KE_bin = F_trim 2,
       rho_vec = [5 / 8, 5 / 9] \<rparr> \<and>
   bs_loop self_trim svd_ex (bs_init self_trim (F_trim 7) K_trim E_trim) =
   Inr \<lparr> n_bins = 3, bin_segs = [[0], [1]], F_bin = F_trim 2, KE_bin = F_trim 2,
       rho_vec = [5 / 8, 5 / 9] \<rparr> \<and>
   baseline_selection self_trim svd_ex 0 (F_trim 7) = Inr (F_trim 7, True)"
proof -
  have bs: "baseline_selection self_trim svd_ex 0 (F_trim 7) = Inr (F_trim 7, True)"
    using baseline_run_trim by (simp add: baseline_selection_def hi_F_trim self_trim_simps)
  show ?thesis
    by (simp add: self_trim_simps hi_F_trim nmf_factors_trim bs_init_trim trim_loop trim_step_3 bs)
qed

subsection \<open>C2: the range of the DI scores\<close>















end
